theory Spec2Isabelle
  imports Main "HOL-Library.Sublist"
begin

section \<open>fnm setup for Windows: a model of \<^verbatim>\<open>window-setup-fnm.mjs\<close>\<close>

text \<open>
  The script checks that \<^verbatim>\<open>fnm\<close> is installed, adds an initialisation line to a
  PowerShell profile, writes \<^verbatim>\<open>fnm_init.cmd\<close> and registers it in the AutoRun value of
  the Command Processor registry key. Everything it touches is outside the process, so
  the model threads one record through the script: the file system, the answers of the
  external commands, the console output and the commands that were run.

  Conventions of the model:
  \<^item> a JavaScript string is a \<^typ>\<open>string\<close>. In a string that comes from a command or a
    path one \<^typ>\<open>char\<close> is one code unit below 256;
  \<^item> a file holds bytes, one \<^typ>\<open>char\<close> each, and text on its way from or to a file is
    kept as the bytes of its UTF-8 form. \<^verbatim>\<open>readFileSync(p, 'utf8')\<close> gives the bytes of the
    file with every sequence that is not UTF-8 replaced by U+FFFD, and
    \<^verbatim>\<open>writeFileSync(p, c, 'utf8')\<close> stores the bytes of the text. The script searches the
    text of a file for an ASCII marker, asks whether it is empty and appends ASCII text
    to it, which is the same on the bytes and on the code units;
  \<^item> a path is the list of its components. \<^verbatim>\<open>path.join\<close> appends components,
    \<^verbatim>\<open>join(p, '..')\<close> drops the last one, and the string form of a path puts a
    backslash between the components (the script is for Windows);
  \<^item> a thrown exception is \<open>Inl\<close> of an error code, next to the state at the throw;
    \<^verbatim>\<open>process.exit\<close> and the end of the script give the exit status;
  \<^item> each \<^verbatim>\<open>console.log\<close> or \<^verbatim>\<open>console.error\<close> call appends one message to the
    console.
\<close>

subsection \<open>Strings\<close>

definition bslash :: char where
  "bslash = CHR 0x5C"

definition dquote :: char where
  "dquote = CHR 0x22"

text \<open>\<^verbatim>\<open>String.prototype.includes\<close>: the argument occurs as a contiguous substring.\<close>

fun includes_str :: "string \<Rightarrow> string \<Rightarrow> bool" where
  "includes_str [] t = (t = [])"
| "includes_str (c # cs) t = (prefix t (c # cs) \<or> includes_str cs t)"

text \<open>
  White space and line terminators of ECMAScript among the code units below 256:
  TAB, LF, VT, FF, CR, SP and NBSP. \<^verbatim>\<open>trim\<close> and the class \<^verbatim>\<open>\s\<close> use the whole set;
  the class \<^verbatim>\<open>.\<close> excludes the line terminators LF and CR.
\<close>

definition isLineTerminator :: "char \<Rightarrow> bool" where
  "isLineTerminator c = (c = CHR 0x0A \<or> c = CHR 0x0D)"

definition isWhiteSpace :: "char \<Rightarrow> bool" where
  "isWhiteSpace c =
     (c = CHR 0x09 \<or> c = CHR 0x0B \<or> c = CHR 0x0C \<or> c = CHR 0x20 \<or> c = CHR 0xA0
      \<or> isLineTerminator c)"

definition trim :: "string \<Rightarrow> string" where
  "trim s = rev (dropWhile isWhiteSpace (rev (dropWhile isWhiteSpace s)))"

subsection \<open>Decoding UTF-8\<close>

text \<open>
  What \<^verbatim>\<open>readFileSync(p, 'utf8')\<close> makes of the bytes of a file, written again as UTF-8.
  A lead byte asks for one, two or three bytes from given ranges. When they all follow,
  the sequence stands as it is. When one is missing, the bytes read so far become one
  U+FFFD, that is the bytes EF BF BD, and decoding goes on at the byte that did not
  fit. A byte that can lead nothing becomes U+FFFD by itself.
\<close>

definition isAscii :: "char \<Rightarrow> bool" where
  "isAscii c = (of_char c < (0x80::nat))"

definition byte_in :: "char \<Rightarrow> nat \<Rightarrow> nat \<Rightarrow> bool" where
  "byte_in c lo hi = (lo \<le> of_char c \<and> of_char c \<le> hi)"

definition replacement :: string where
  "replacement = [CHR 0xEF, CHR 0xBF, CHR 0xBD]"

definition continuation_ranges :: "char \<Rightarrow> (nat \<times> nat) list option" where
  "continuation_ranges b =
     (if byte_in b 0xC2 0xDF then Some [(0x80, 0xBF)]
      else if b = CHR 0xE0 then Some [(0xA0, 0xBF), (0x80, 0xBF)]
      else if b = CHR 0xED then Some [(0x80, 0x9F), (0x80, 0xBF)]
      else if byte_in b 0xE1 0xEF then Some [(0x80, 0xBF), (0x80, 0xBF)]
      else if b = CHR 0xF0 then Some [(0x90, 0xBF), (0x80, 0xBF), (0x80, 0xBF)]
      else if b = CHR 0xF4 then Some [(0x80, 0x8F), (0x80, 0xBF), (0x80, 0xBF)]
      else if byte_in b 0xF1 0xF3 then Some [(0x80, 0xBF), (0x80, 0xBF), (0x80, 0xBF)]
      else None)"

fun continuation :: "(nat \<times> nat) list \<Rightarrow> string \<Rightarrow> string" where
  "continuation [] bs = []"
| "continuation (r # rs) [] = []"
| "continuation ((lo, hi) # rs) (c # cs) =
     (if byte_in c lo hi then c # continuation rs cs else [])"

function utf8_text :: "string \<Rightarrow> string" where
  "utf8_text [] = []"
| "utf8_text (b # bs) =
     (if isAscii b then b # utf8_text bs
      else case continuation_ranges b of
             None \<Rightarrow> replacement @ utf8_text bs
           | Some rs \<Rightarrow>
               (let m = continuation rs bs
                in if length m = length rs then b # m @ utf8_text (drop (length m) bs)
                   else replacement @ utf8_text (drop (length m) bs)))"
  by pat_completeness auto
termination
  by (relation "measure length") auto

subsection \<open>The pattern \<^verbatim>\<open>/AutoRun\s+REG_SZ\s+(.+)/\<close>\<close>

text \<open>
  A backtracking matcher for the pieces of the pattern. Each piece takes the rest of
  the input and a continuation for the rest of the pattern. A greedy \<^verbatim>\<open>+\<close> first takes
  the longest run of matching characters and gives characters back one at a time, down
  to one, until the continuation succeeds.
\<close>

definition re_lit :: "string \<Rightarrow> (string \<Rightarrow> 'a option) \<Rightarrow> string \<Rightarrow> 'a option" where
  "re_lit l k s = (if prefix l s then k (drop (length l) s) else None)"

fun re_backtrack :: "(string \<Rightarrow> 'a option) \<Rightarrow> string \<Rightarrow> nat \<Rightarrow> 'a option" where
  "re_backtrack k s 0 = None"
| "re_backtrack k s (Suc n) =
     (case k (drop (Suc n) s) of
        Some r \<Rightarrow> Some r
      | None \<Rightarrow> re_backtrack k s n)"

definition re_plus :: "(char \<Rightarrow> bool) \<Rightarrow> (string \<Rightarrow> 'a option) \<Rightarrow> string \<Rightarrow> 'a option" where
  "re_plus P k s = re_backtrack k s (length (takeWhile P s))"

text \<open>
  The group \<^verbatim>\<open>(.+)\<close> ends the pattern, so its first, longest attempt is the match:
  every character up to the next line terminator, at least one.
\<close>

definition re_group_dot_plus :: "string \<Rightarrow> string option" where
  "re_group_dot_plus s =
     (let g = takeWhile (\<lambda>c. \<not> isLineTerminator c) s
      in if g = [] then None else Some g)"

definition autorun_re_at :: "string \<Rightarrow> string option" where
  "autorun_re_at s =
     re_lit ''AutoRun''
       (re_plus isWhiteSpace
         (re_lit ''REG_SZ''
           (re_plus isWhiteSpace re_group_dot_plus))) s"

text \<open>
  \<^verbatim>\<open>str.match(/AutoRun\s+REG_SZ\s+(.+)/)\<close>: the match at the leftmost position where the
  pattern matches; the result is the text of group 1, \<open>None\<close> for \<^verbatim>\<open>null\<close>.
\<close>

fun autorun_re_match :: "string \<Rightarrow> string option" where
  "autorun_re_match [] = autorun_re_at []"
| "autorun_re_match (c # cs) =
     (case autorun_re_at (c # cs) of
        Some g \<Rightarrow> Some g
      | None \<Rightarrow> autorun_re_match cs)"

subsection \<open>The world of the script\<close>

type_synonym path = "string list"

text \<open>A regular file with its bytes, or a directory.\<close>

datatype node = File string | Dir

datatype errno = ENOENT | ENOTDIR | EISDIR | EEXIST | EACCES | CommandFailed

datatype msg =
    SettingUpFnm
  | FnmInstalled
  | FnmNotInstalled
  | InstallFnmHint
  | SettingUpPowerShell
  | ProfileAlreadyConfigured
  | ProfileLocation string
  | ProfileConfigured
  | SettingUpCmd
  | CreatedInitScript string
  | AutoRunAlreadyConfigured
  | AutoRunConfigured
  | AutoRunNotConfigured
  | ManualSetup
  | ManualKey string
  | ManualValue string
  | SetupComplete
  | NextSteps
  | NextStep1
  | NextStep2
  | NextStep3
  | NextStep4
  | Tip
  | ErrorDuringSetup errno

text \<open>
  \<open>home\<close> is what \<^verbatim>\<open>os.homedir()\<close> returns. \<open>files\<close> is the file system. \<open>denied\<close> holds
  the paths the system refuses to create or write. \<open>shell c\<close> is the standard output of
  the command line \<open>c\<close>, or \<open>None\<close> when it exits with a status other than zero.
  \<open>console\<close> and \<open>spawned\<close> record the messages printed and the command lines run, in
  order.
\<close>

record state =
  home :: path
  files :: "path \<rightharpoonup> node"
  denied :: "path set"
  shell :: "string \<Rightarrow> string option"
  console :: "msg list"
  spawned :: "string list"

definition console_log :: "msg \<Rightarrow> state \<Rightarrow> state" where
  "console_log m s = s\<lparr>console := console s @ [m]\<rparr>"

fun path_string :: "path \<Rightarrow> string" where
  "path_string [] = []"
| "path_string [c] = c"
| "path_string (c # d # ds) = c @ bslash # path_string (d # ds)"

definition join :: "path \<Rightarrow> string list \<Rightarrow> path" where
  "join p cs = p @ cs"

definition join_dotdot :: "path \<Rightarrow> path" where
  "join_dotdot p = butlast p"

definition existsSync :: "state \<Rightarrow> path \<Rightarrow> bool" where
  "existsSync s p = (files s p \<noteq> None)"

definition readFileSync :: "state \<Rightarrow> path \<Rightarrow> errno + string" where
  "readFileSync s p =
     (case files s p of
        None \<Rightarrow> Inl ENOENT
      | Some Dir \<Rightarrow> Inl EISDIR
      | Some (File c) \<Rightarrow> Inr (utf8_text c))"

text \<open>
  \<^verbatim>\<open>writeFileSync\<close> creates or replaces a regular file. It throws when the path is a
  directory, when the parent is not an existing directory, or when the system refuses.
  The empty path is the root, which is always there.
\<close>

definition writeFileSync :: "path \<Rightarrow> string \<Rightarrow> state \<Rightarrow> (errno + unit) \<times> state" where
  "writeFileSync p c s =
     (if files s p = Some Dir then (Inl EISDIR, s)
      else if butlast p \<noteq> [] \<and> files s (butlast p) = None then (Inl ENOENT, s)
      else if butlast p \<noteq> [] \<and> files s (butlast p) \<noteq> Some Dir then (Inl ENOTDIR, s)
      else if p \<in> denied s then (Inl EACCES, s)
      else (Inr (), s\<lparr>files := (files s)(p \<mapsto> File c)\<rparr>))"

text \<open>
  \<^verbatim>\<open>mkdirSync(p, { recursive: true })\<close> walks the prefixes of the path, shortest first,
  and creates each missing directory; the empty path, the root, is never made.
  Directories made before a failure stay.
\<close>

fun mkdirs :: "path list \<Rightarrow> state \<Rightarrow> (errno + unit) \<times> state" where
  "mkdirs [] s = (Inr (), s)"
| "mkdirs (d # ds) s =
     (case files s d of
        Some Dir \<Rightarrow> mkdirs ds s
      | Some (File c) \<Rightarrow> (Inl (if ds = [] then EEXIST else ENOTDIR), s)
      | None \<Rightarrow>
          if d \<in> denied s then (Inl EACCES, s)
          else mkdirs ds (s\<lparr>files := (files s)(d \<mapsto> Dir)\<rparr>))"

definition mkdirSync :: "path \<Rightarrow> state \<Rightarrow> (errno + unit) \<times> state" where
  "mkdirSync p s = mkdirs (tl (prefixes p)) s"

text \<open>
  \<^verbatim>\<open>execSync\<close> runs a command line and returns its output; it throws when the command
  exits with a status other than zero.
\<close>

definition execSync :: "string \<Rightarrow> state \<Rightarrow> (errno + string) \<times> state" where
  "execSync c s =
     (let s' = s\<lparr>spawned := spawned s @ [c]\<rparr>
      in case shell s c of
           None \<Rightarrow> (Inl CommandFailed, s')
         | Some output \<Rightarrow> (Inr output, s'))"

subsection \<open>Constants of the script\<close>

definition POWERSHELL_PROFILE_5 :: "path \<Rightarrow> path" where
  "POWERSHELL_PROFILE_5 USER_HOME =
     join USER_HOME [''Documents'', ''WindowsPowerShell'', ''Microsoft.PowerShell_profile.ps1'']"

definition POWERSHELL_PROFILE_6 :: "path \<Rightarrow> path" where
  "POWERSHELL_PROFILE_6 USER_HOME =
     join USER_HOME [''Documents'', ''PowerShell'', ''Microsoft.PowerShell_profile.ps1'']"

definition CMD_INIT_FILE :: "path \<Rightarrow> path" where
  "CMD_INIT_FILE USER_HOME = join USER_HOME [''fnm_init.cmd'']"

definition fnmInitLine :: string where
  "fnmInitLine =
     ''fnm env --use-on-cd --corepack-enabled --shell powershell | Out-String | Invoke-Expression''"

definition cmdContent :: string where
  "cmdContent =
     ''@echo off\<newline>''
     @ '':: for /F will launch a new instance of cmd so we create a guard to prevent an infinite loop\<newline>''
     @ ''if not defined FNM_AUTORUN_GUARD (\<newline>''
     @ ''    set '' @ dquote # ''FNM_AUTORUN_GUARD=AutorunGuard'' @ dquote # ''\<newline>''
     @ ''    FOR /f '' @ dquote # ''tokens=*'' @ dquote # '' %%z IN (''
     @ CHR 0x27 # ''fnm env --use-on-cd --corepack-enabled --shell cmd'' @ CHR 0x27 # '') DO CALL %%z\<newline>''
     @ '')\<newline>''"

definition regPath :: string where
  "regPath = ''HKCU'' @ bslash # ''Software'' @ bslash # ''Microsoft'' @ bslash # ''Command Processor''"

definition regQueryCommand :: string where
  "regQueryCommand = ''reg query '' @ dquote # regPath @ dquote # '' /v AutoRun 2>nul''"

definition regAddCommand :: "string \<Rightarrow> string" where
  "regAddCommand newAutoRun =
     ''reg add '' @ dquote # regPath @ dquote # '' /v AutoRun /t REG_SZ /d '' @ dquote # newAutoRun
     @ dquote # '' /f''"

subsection \<open>\<^verbatim>\<open>setupPowerShell\<close>\<close>

definition profilePath :: "state \<Rightarrow> path" where
  "profilePath s =
     (if \<not> existsSync s (POWERSHELL_PROFILE_5 (home s)) \<and> existsSync s (POWERSHELL_PROFILE_6 (home s))
      then POWERSHELL_PROFILE_6 (home s)
      else POWERSHELL_PROFILE_5 (home s))"

definition newContent :: "string \<Rightarrow> string" where
  "newContent profileContent =
     (if profileContent \<noteq> []
      then profileContent @ ''\<newline>\<newline># fnm (Fast Node Manager)\<newline>'' @ fnmInitLine @ ''\<newline>''
      else ''# fnm (Fast Node Manager)\<newline>'' @ fnmInitLine @ ''\<newline>'')"

text \<open>The end of \<^verbatim>\<open>setupPowerShell\<close>: write the new content and report.\<close>

definition appendConfiguration :: "path \<Rightarrow> string \<Rightarrow> state \<Rightarrow> (errno + unit) \<times> state" where
  "appendConfiguration p profileContent s =
     (case writeFileSync p (newContent profileContent) s of
        (Inl e, s') \<Rightarrow> (Inl e, s')
      | (Inr _, s') \<Rightarrow>
          (Inr (), console_log (ProfileLocation (path_string p)) (console_log ProfileConfigured s')))"

definition setupPowerShell :: "state \<Rightarrow> (errno + unit) \<times> state" where
  "setupPowerShell s0 =
     (let s = console_log SettingUpPowerShell s0;
          p = profilePath s
      in if existsSync s p then
           (case readFileSync s p of
              Inl e \<Rightarrow> (Inl e, s)
            | Inr profileContent \<Rightarrow>
                if includes_str profileContent ''fnm env'' then
                  (Inr (), console_log (ProfileLocation (path_string p)) (console_log ProfileAlreadyConfigured s))
                else appendConfiguration p profileContent s)
         else
           (let profileDir = join_dotdot p
            in case (if \<not> existsSync s profileDir then mkdirSync profileDir s else (Inr (), s)) of
                 (Inl e, s') \<Rightarrow> (Inl e, s')
               | (Inr _, s') \<Rightarrow> appendConfiguration p [] s'))"

subsection \<open>\<^verbatim>\<open>setupCmd\<close>\<close>

text \<open>The handler of the \<^verbatim>\<open>try\<close> block around the registry commands.\<close>

definition manualSetup :: "state \<Rightarrow> state" where
  "manualSetup s =
     console_log (ManualValue (path_string (CMD_INIT_FILE (home s))))
       (console_log (ManualKey (regPath @ bslash # ''AutoRun''))
         (console_log ManualSetup (console_log AutoRunNotConfigured s)))"

definition existingValue :: "string \<Rightarrow> string" where
  "existingValue currentAutoRun =
     (case autorun_re_match currentAutoRun of
        Some g \<Rightarrow> trim g
      | None \<Rightarrow> [])"

definition newAutoRun :: "path \<Rightarrow> string \<Rightarrow> string" where
  "newAutoRun USER_HOME currentAutoRun =
     (if existingValue currentAutoRun \<noteq> []
      then existingValue currentAutoRun @ '' & '' @ path_string (CMD_INIT_FILE USER_HOME)
      else path_string (CMD_INIT_FILE USER_HOME))"

definition setupCmd :: "state \<Rightarrow> (errno + unit) \<times> state" where
  "setupCmd s0 =
     (let s = console_log SettingUpCmd s0
      in case writeFileSync (CMD_INIT_FILE (home s)) cmdContent s of
           (Inl e, s1) \<Rightarrow> (Inl e, s1)
         | (Inr _, s1) \<Rightarrow>
             (let s2 = console_log (CreatedInitScript (path_string (CMD_INIT_FILE (home s1)))) s1
              in case execSync regQueryCommand s2 of
                   (Inl e, s3) \<Rightarrow> (Inr (), manualSetup s3)
                 | (Inr output, s3) \<Rightarrow>
                     (let currentAutoRun = trim output
                      in if includes_str currentAutoRun (path_string (CMD_INIT_FILE (home s3))) then
                           (Inr (), console_log AutoRunAlreadyConfigured s3)
                         else
                           (case execSync (regAddCommand (newAutoRun (home s3) currentAutoRun)) s3 of
                              (Inl e, s4) \<Rightarrow> (Inr (), manualSetup s4)
                            | (Inr _, s4) \<Rightarrow> (Inr (), console_log AutoRunConfigured s4)))))"

subsection \<open>The script\<close>

definition nextSteps :: "state \<Rightarrow> state" where
  "nextSteps s =
     console_log Tip (console_log NextStep4 (console_log NextStep3 (console_log NextStep2 (console_log NextStep1
       (console_log NextSteps (console_log SetupComplete s))))))"

text \<open>The whole script, from the first line to the exit status of the process.\<close>

definition main :: "state \<Rightarrow> nat \<times> state" where
  "main s0 =
     (case execSync ''fnm --version'' (console_log SettingUpFnm s0) of
        (Inl e, s1) \<Rightarrow> (1, console_log InstallFnmHint (console_log FnmNotInstalled s1))
      | (Inr _, s1) \<Rightarrow>
          (case setupPowerShell (console_log FnmInstalled s1) of
             (Inl e, s2) \<Rightarrow> (1, console_log (ErrorDuringSetup e) s2)
           | (Inr _, s2) \<Rightarrow>
               (case setupCmd s2 of
                  (Inl e, s3) \<Rightarrow> (1, console_log (ErrorDuringSetup e) s3)
                | (Inr _, s3) \<Rightarrow> (0, nextSteps s3))))"

text \<open>
  The script run again and again on the state the run before left. The answers of the
  external commands may differ from run to run (a registry value written by one run is
  read by the next), so each run gets its own.
\<close>

fun reruns :: "(string \<Rightarrow> string option) list \<Rightarrow> state \<Rightarrow> state" where
  "reruns [] s = s"
| "reruns (a # rest) s = reruns rest (snd (main (s\<lparr>shell := a\<rparr>)))"

subsection \<open>Sample machines\<close>

text \<open>
  The output of \<^verbatim>\<open>reg query\<close> for an AutoRun value of type \<open>ty\<close> with data \<open>v\<close>: an
  empty line, the key, the value line and two line ends.
\<close>

definition reg_output :: "string \<Rightarrow> string \<Rightarrow> string" where
  "reg_output ty v =
     [CHR 0x0D, CHR 0x0A] @ ''HKEY_CURRENT_USER'' @ bslash # ''Software'' @ bslash # ''Microsoft''
     @ bslash # ''Command Processor'' @ [CHR 0x0D, CHR 0x0A]
     @ ''    AutoRun    '' @ ty @ ''    '' @ v @ [CHR 0x0D, CHR 0x0A, CHR 0x0D, CHR 0x0A]"

text \<open>
  Answers of the external commands: \<^verbatim>\<open>fnm\<close> is installed, \<^verbatim>\<open>reg query\<close> answers
  \<open>query\<close>, and every other command succeeds exactly when \<open>add_ok\<close> holds.
\<close>

definition answers :: "string option \<Rightarrow> bool \<Rightarrow> string \<Rightarrow> string option" where
  "answers query add_ok c =
     (if c = ''fnm --version'' then Some ''1.38.1''
      else if c = regQueryCommand then query
      else if add_ok then Some ''The operation completed successfully.''
      else None)"

definition sample_home :: path where
  "sample_home = [''C:'', ''Users'', ''me'']"

text \<open>A machine whose home directory exists and holds no profile yet.\<close>

definition machine :: "(string \<Rightarrow> string option) \<Rightarrow> state" where
  "machine a =
     \<lparr>home = sample_home,
      files = [[''C:''] \<mapsto> Dir, [''C:'', ''Users''] \<mapsto> Dir, sample_home \<mapsto> Dir],
      denied = {},
      shell = a,
      console = [],
      spawned = []\<rparr>"

text \<open>The same machine with a profile of PowerShell 6 and later, of content \<open>c\<close>.\<close>

definition machine_with_profile_6 :: "string \<Rightarrow> (string \<Rightarrow> string option) \<Rightarrow> state" where
  "machine_with_profile_6 c a =
     (machine a)\<lparr>files :=
        (files (machine a))
          (sample_home @ [''Documents''] \<mapsto> Dir,
           sample_home @ [''Documents'', ''PowerShell''] \<mapsto> Dir,
           POWERSHELL_PROFILE_6 sample_home \<mapsto> File c)\<rparr>"

section \<open>Properties\<close>

subsection \<open>Facts about the file system and \<^verbatim>\<open>setupPowerShell\<close>\<close>

lemma console_log_fields [simp]:
  "home (console_log m s) = home s"
  "files (console_log m s) = files s"
  "denied (console_log m s) = denied s"
  "shell (console_log m s) = shell s"
  "spawned (console_log m s) = spawned s"
  "console (console_log m s) = console s @ [m]"
  by (simp_all add: console_log_def)

lemma writeFileSync_cases:
  "writeFileSync p c s = (Inr (), s\<lparr>files := (files s)(p \<mapsto> File c)\<rparr>)
   \<or> (\<exists>e. writeFileSync p c s = (Inl e, s))"
  by (simp add: writeFileSync_def)

lemma mkdirs_frame:
  "home (snd (mkdirs ds s)) = home s \<and> denied (snd (mkdirs ds s)) = denied s
   \<and> shell (snd (mkdirs ds s)) = shell s \<and> console (snd (mkdirs ds s)) = console s
   \<and> spawned (snd (mkdirs ds s)) = spawned s"
  by (induction ds s rule: mkdirs.induct) (auto split: option.splits node.splits)

lemma mkdirs_keeps:
  "files s q = Some n \<Longrightarrow> files (snd (mkdirs ds s)) q = Some n"
  by (induction ds s rule: mkdirs.induct) (auto split: option.splits node.splits)

lemma existsSync_console_log [simp]: "existsSync (console_log m s) p = existsSync s p"
  by (simp add: existsSync_def)

lemma readFileSync_console_log [simp]: "readFileSync (console_log m s) p = readFileSync s p"
  by (simp add: readFileSync_def)

lemma profilePath_console_log [simp]: "profilePath (console_log m s) = profilePath s"
  by (simp add: profilePath_def)

lemma profile_paths_differ: "POWERSHELL_PROFILE_5 h \<noteq> POWERSHELL_PROFILE_6 h"
  by (simp add: POWERSHELL_PROFILE_5_def POWERSHELL_PROFILE_6_def join_def)

lemma includes_str_iff: "includes_str s t \<longleftrightarrow> (\<exists>a b. s = a @ t @ b)"
proof (induction s)
  case Nil
  then show ?case by auto
next
  case (Cons c cs)
  show ?case
  proof
    assume "includes_str (c # cs) t"
    then consider "prefix t (c # cs)" | "includes_str cs t" by auto
    then show "\<exists>a b. c # cs = a @ t @ b"
    proof cases
      case 1
      then obtain b where "c # cs = t @ b" by (auto simp: prefix_def)
      then have "c # cs = [] @ t @ b" by simp
      then show ?thesis by blast
    next
      case 2
      with Cons.IH obtain a b where "cs = a @ t @ b" by blast
      then have "c # cs = (c # a) @ t @ b" by simp
      then show ?thesis by blast
    qed
  next
    assume "\<exists>a b. c # cs = a @ t @ b"
    then obtain a b where ab: "c # cs = a @ t @ b" by blast
    show "includes_str (c # cs) t"
    proof (cases a)
      case Nil
      with ab have "prefix t (c # cs)" by (simp add: prefix_def)
      then show ?thesis by simp
    next
      case (Cons x a')
      with ab have "cs = a' @ t @ b" by simp
      with Cons.IH have "includes_str cs t" by blast
      then show ?thesis by simp
    qed
  qed
qed

subsection \<open>Facts about the decoder\<close>

lemma replacement_not_ascii: "\<forall>c\<in>set replacement. \<not> isAscii c"
  by (simp add: replacement_def isAscii_def)

lemma continuation_ranges_high:
  "continuation_ranges b = Some rs \<Longrightarrow> \<forall>(lo, hi)\<in>set rs. 0x80 \<le> lo"
  by (auto simp: continuation_ranges_def split: if_splits)

lemma continuation_not_ascii:
  "\<forall>(lo, hi)\<in>set rs. 0x80 \<le> lo \<Longrightarrow> \<forall>c\<in>set (continuation rs xs). \<not> isAscii c"
  by (induction rs xs rule: continuation.induct) (auto simp: byte_in_def isAscii_def)

lemma continuation_prefix: "prefix (continuation rs xs) xs"
  by (induction rs xs rule: continuation.induct) auto

lemma continuation_length: "length (continuation rs xs) \<le> length xs"
  using continuation_prefix [of rs xs] by (rule prefix_length_le)

lemma continuation_stops:
  assumes "r = [] \<or> isAscii (hd r)" and "\<forall>(lo, hi)\<in>set rs. 0x80 \<le> lo"
  shows "continuation rs (xs @ r) = continuation rs xs"
  using assms(2)
proof (induction rs xs rule: continuation.induct)
  case (1 bs)
  then show ?case by simp
next
  case (2 rg rs)
  obtain lo hi where rg: "rg = (lo, hi)" by (cases rg)
  with 2 have "0x80 \<le> lo" by simp
  with assms(1) rg show ?case
    by (cases r) (auto simp: byte_in_def isAscii_def)
next
  case (3 lo hi rs c cs)
  then show ?case by simp
qed

text \<open>ASCII bytes are text as they are.\<close>

lemma utf8_text_ascii: "list_all isAscii t \<Longrightarrow> utf8_text (t @ b) = t @ utf8_text b"
  by (induction t) simp_all

text \<open>What the decoder makes of a byte is one ASCII byte or bytes that are not ASCII.\<close>

lemma utf8_text_step:
  "(isAscii x \<and> utf8_text (x # xs) = x # utf8_text xs)
   \<or> (\<not> isAscii x \<and> (\<exists>u k. utf8_text (x # xs) = u @ utf8_text (drop k xs)
          \<and> u \<noteq> [] \<and> (\<forall>c\<in>set u. \<not> isAscii c) \<and> k \<le> length xs
          \<and> (\<forall>r. r = [] \<or> isAscii (hd r) \<longrightarrow>
                 utf8_text (x # xs @ r) = u @ utf8_text (drop k xs @ r))))"
proof (cases "isAscii x")
  case True
  then show ?thesis by simp
next
  case False
  show ?thesis
  proof (cases "continuation_ranges x")
    case None
    with False have "utf8_text (x # xs) = replacement @ utf8_text (drop 0 xs)"
      and "\<forall>r. utf8_text (x # xs @ r) = replacement @ utf8_text (drop 0 xs @ r)"
      by simp_all
    with False replacement_not_ascii show ?thesis
      by (intro disjI2 conjI exI [of _ replacement] exI [of _ 0]) (simp_all add: replacement_def)
  next
    case (Some rs)
    let ?m = "continuation rs xs"
    let ?k = "length ?m"
    have hi: "\<forall>(lo, hi)\<in>set rs. 0x80 \<le> lo"
      using Some by (rule continuation_ranges_high)
    have k: "?k \<le> length xs" by (rule continuation_length)
    have stop: "\<forall>r. r = [] \<or> isAscii (hd r) \<longrightarrow> continuation rs (xs @ r) = ?m"
      using hi by (simp add: continuation_stops)
    have m: "\<forall>c\<in>set ?m. \<not> isAscii c"
      using hi by (rule continuation_not_ascii)
    show ?thesis
    proof (cases "?k = length rs")
      case True
      with False Some have "utf8_text (x # xs) = (x # ?m) @ utf8_text (drop ?k xs)"
        by (simp add: Let_def)
      moreover from True False Some stop k
      have "\<forall>r. r = [] \<or> isAscii (hd r) \<longrightarrow>
              utf8_text (x # xs @ r) = (x # ?m) @ utf8_text (drop ?k xs @ r)"
        by (simp add: Let_def)
      ultimately show ?thesis
        using False m k by (intro disjI2 conjI exI [of _ "x # ?m"] exI [of _ ?k]) simp_all
    next
      case ne: False
      with False Some have "utf8_text (x # xs) = replacement @ utf8_text (drop ?k xs)"
        by (simp add: Let_def)
      moreover from ne False Some stop k
      have "\<forall>r. r = [] \<or> isAscii (hd r) \<longrightarrow>
              utf8_text (x # xs @ r) = replacement @ utf8_text (drop ?k xs @ r)"
        by (simp add: Let_def)
      ultimately show ?thesis
        using False replacement_not_ascii k
        by (intro disjI2 conjI exI [of _ replacement] exI [of _ ?k]) (simp_all add: replacement_def)
    qed
  qed
qed

text \<open>Text in front of an ASCII byte is decoded on its own.\<close>

lemma utf8_text_before_ascii:
  "r = [] \<or> isAscii (hd r) \<Longrightarrow> \<exists>a'. utf8_text (a @ r) = a' @ utf8_text r"
proof (induction a rule: length_induct)
  case (1 a)
  show ?case
  proof (cases a)
    case Nil
    then show ?thesis by simp
  next
    case (Cons x xs)
    from utf8_text_step [of x xs] show ?thesis
    proof
      assume "isAscii x \<and> utf8_text (x # xs) = x # utf8_text xs"
      then have "utf8_text (a @ r) = x # utf8_text (xs @ r)"
        using Cons by simp
      moreover from 1 Cons obtain a' where "utf8_text (xs @ r) = a' @ utf8_text r"
        by auto
      ultimately have "utf8_text (a @ r) = (x # a') @ utf8_text r" by simp
      then show ?thesis by blast
    next
      assume "\<not> isAscii x \<and> (\<exists>u k. utf8_text (x # xs) = u @ utf8_text (drop k xs)
          \<and> u \<noteq> [] \<and> (\<forall>c\<in>set u. \<not> isAscii c) \<and> k \<le> length xs
          \<and> (\<forall>r. r = [] \<or> isAscii (hd r) \<longrightarrow>
                 utf8_text (x # xs @ r) = u @ utf8_text (drop k xs @ r)))"
      then obtain u k where "utf8_text (x # xs @ r) = u @ utf8_text (drop k xs @ r)"
        using "1.prems" by blast
      moreover have "length (drop k xs) < length a" using Cons by simp
      with 1 obtain a' where "utf8_text (drop k xs @ r) = a' @ utf8_text r"
        by blast
      ultimately have "utf8_text (a @ r) = (u @ a') @ utf8_text r"
        using Cons by simp
      then show ?thesis by blast
    qed
  qed
qed

text \<open>An ASCII text is in the bytes of a file exactly when it is in the decoded text.\<close>

lemma includes_utf8_text:
  assumes "includes_str c t" and "list_all isAscii t"
  shows "includes_str (utf8_text c) t"
proof -
  from assms(1) obtain a b where c: "c = a @ t @ b"
    by (auto simp: includes_str_iff)
  have "t @ b = [] \<or> isAscii (hd (t @ b)) \<or> t = []"
    using assms(2) by (cases t) auto
  then show ?thesis
  proof (elim disjE)
    assume "t = []"
    then have "utf8_text c = [] @ t @ utf8_text c" by simp
    then show ?thesis unfolding includes_str_iff by blast
  next
    assume "t @ b = []"
    then have "utf8_text c = [] @ t @ utf8_text c" by simp
    then show ?thesis unfolding includes_str_iff by blast
  next
    assume "isAscii (hd (t @ b))"
    then obtain a' where "utf8_text (a @ (t @ b)) = a' @ utf8_text (t @ b)"
      using utf8_text_before_ascii [of "t @ b" a] by blast
    with c assms(2) have "utf8_text c = a' @ t @ utf8_text b"
      by (simp add: utf8_text_ascii)
    then show ?thesis unfolding includes_str_iff by blast
  qed
qed

lemma includes_skip_not_ascii:
  assumes "\<forall>c\<in>set u. \<not> isAscii c" and "list_all isAscii t" and "t \<noteq> []"
  shows "includes_str (u @ y) t \<Longrightarrow> includes_str y t"
  using assms(1)
proof (induction u)
  case Nil
  then show ?case by simp
next
  case (Cons n u)
  from assms(2,3) Cons.prems(2) have "\<not> prefix t (n # u @ y)"
    by (cases t) auto
  with Cons show ?case by simp
qed

lemma includes_drop: "includes_str (drop k xs) t \<Longrightarrow> includes_str xs t"
proof -
  assume "includes_str (drop k xs) t"
  then obtain a b where "drop k xs = a @ t @ b" by (auto simp: includes_str_iff)
  then have "xs = (take k xs @ a) @ t @ b"
    by (metis append_take_drop_id append.assoc)
  then show ?thesis unfolding includes_str_iff by blast
qed

lemma prefix_utf8_text:
  "list_all isAscii t \<Longrightarrow> prefix t (utf8_text xs) \<Longrightarrow> prefix t xs"
proof (induction t arbitrary: xs)
  case Nil
  then show ?case by simp
next
  case (Cons y t)
  show ?case
  proof (cases xs)
    case Nil
    with Cons.prems show ?thesis by simp
  next
    case (Cons z zs)
    from utf8_text_step [of z zs] show ?thesis
    proof
      assume a: "isAscii z \<and> utf8_text (z # zs) = z # utf8_text zs"
      with Cons.prems Cons have "y = z" and "prefix t (utf8_text zs)" by simp_all
      with Cons.IH Cons.prems(1) Cons show ?thesis by simp
    next
      assume "\<not> isAscii z \<and> (\<exists>u k. utf8_text (z # zs) = u @ utf8_text (drop k zs)
          \<and> u \<noteq> [] \<and> (\<forall>c\<in>set u. \<not> isAscii c) \<and> k \<le> length zs
          \<and> (\<forall>r. r = [] \<or> isAscii (hd r) \<longrightarrow>
                 utf8_text (z # zs @ r) = u @ utf8_text (drop k zs @ r)))"
      then obtain u k where u: "utf8_text (z # zs) = u @ utf8_text (drop k zs)"
        "u \<noteq> []" "\<forall>c\<in>set u. \<not> isAscii c" by blast
      then obtain n u' where "u = n # u'" "\<not> isAscii n" by (cases u) auto
      with u Cons.prems Cons have False by simp
      then show ?thesis ..
    qed
  qed
qed

lemma includes_utf8_text_back:
  assumes "list_all isAscii t" and "t \<noteq> []"
  shows "includes_str (utf8_text c) t \<Longrightarrow> includes_str c t"
proof (induction c rule: length_induct)
  case (1 c)
  show ?case
  proof (cases c)
    case Nil
    with "1.prems" show ?thesis by simp
  next
    case (Cons x xs)
    from utf8_text_step [of x xs] show ?thesis
    proof
      assume a: "isAscii x \<and> utf8_text (x # xs) = x # utf8_text xs"
      with "1.prems" Cons
      consider "prefix t (x # utf8_text xs)" | "includes_str (utf8_text xs) t" by auto
      then show ?thesis
      proof cases
        case 1
        with a have "prefix t (utf8_text (x # xs))" by simp
        with assms(1) have "prefix t (x # xs)" by (rule prefix_utf8_text)
        with Cons show ?thesis by simp
      next
        case 2
        with "1.IH" Cons have "includes_str xs t" by simp
        with Cons show ?thesis by simp
      qed
    next
      assume "\<not> isAscii x \<and> (\<exists>u k. utf8_text (x # xs) = u @ utf8_text (drop k xs)
          \<and> u \<noteq> [] \<and> (\<forall>c\<in>set u. \<not> isAscii c) \<and> k \<le> length xs
          \<and> (\<forall>r. r = [] \<or> isAscii (hd r) \<longrightarrow>
                 utf8_text (x # xs @ r) = u @ utf8_text (drop k xs @ r)))"
      then obtain u k where u: "utf8_text (x # xs) = u @ utf8_text (drop k xs)"
        "\<forall>c\<in>set u. \<not> isAscii c" by blast
      with "1.prems" Cons have "includes_str (u @ utf8_text (drop k xs)) t" by simp
      with u(2) assms have "includes_str (utf8_text (drop k xs)) t"
        by (rule includes_skip_not_ascii)
      moreover have "length (drop k xs) < length c" using Cons by simp
      ultimately have "includes_str (drop k xs) t" using "1.IH" by blast
      then have "includes_str xs t" by (rule includes_drop)
      with Cons show ?thesis by simp
    qed
  qed
qed

lemma marker_ascii: "list_all isAscii ''fnm env''"
  by (simp add: isAscii_def)

lemma newContent_includes_marker: "includes_str (newContent c) ''fnm env''"
proof -
  have "fnmInitLine = [] @ ''fnm env'' @ '' --use-on-cd --corepack-enabled --shell powershell | Out-String | Invoke-Expression''"
    by (simp add: fnmInitLine_def)
  then obtain r where r: "fnmInitLine = ''fnm env'' @ r" by simp
  have "\<exists>a b. newContent c = a @ ''fnm env'' @ b"
  proof (cases "c = []")
    case True
    then have "newContent c = ''# fnm (Fast Node Manager)\<newline>'' @ ''fnm env'' @ (r @ ''\<newline>'')"
      by (simp add: newContent_def r)
    then show ?thesis by blast
  next
    case False
    then have "newContent c = (c @ ''\<newline>\<newline># fnm (Fast Node Manager)\<newline>'') @ ''fnm env'' @ (r @ ''\<newline>'')"
      by (simp add: newContent_def r)
    then show ?thesis by blast
  qed
  then show ?thesis by (simp only: includes_str_iff)
qed

lemma appendConfiguration_frame:
  "home (snd (appendConfiguration p c s)) = home s \<and> denied (snd (appendConfiguration p c s)) = denied s
   \<and> shell (snd (appendConfiguration p c s)) = shell s
   \<and> spawned (snd (appendConfiguration p c s)) = spawned s"
  using writeFileSync_cases [of p "newContent c" s]
  by (auto simp: appendConfiguration_def)

lemma appendConfiguration_Inr:
  "fst (appendConfiguration p c s) = Inr u \<Longrightarrow>
     snd (appendConfiguration p c s) =
       s\<lparr>files := (files s)(p \<mapsto> File (newContent c)),
         console := console s @ [ProfileConfigured, ProfileLocation (path_string p)]\<rparr>"
  using writeFileSync_cases [of p "newContent c" s]
  by (auto simp: appendConfiguration_def console_log_def)

lemma appendConfiguration_Inl:
  "fst (appendConfiguration p c s) = Inl e \<Longrightarrow> snd (appendConfiguration p c s) = s"
  using writeFileSync_cases [of p "newContent c" s]
  by (auto simp: appendConfiguration_def console_log_def)

lemma appendConfiguration_other:
  "q \<noteq> p \<Longrightarrow> files (snd (appendConfiguration p c s)) q = files s q"
  using writeFileSync_cases [of p "newContent c" s]
  by (auto simp: appendConfiguration_def)

lemma mkdirSync_frame:
  "home (snd (mkdirSync p s)) = home s \<and> denied (snd (mkdirSync p s)) = denied s
   \<and> shell (snd (mkdirSync p s)) = shell s \<and> console (snd (mkdirSync p s)) = console s
   \<and> spawned (snd (mkdirSync p s)) = spawned s"
  by (simp add: mkdirSync_def mkdirs_frame)

text \<open>The three ways \<open>setupPowerShell\<close> goes, by what is at the profile path.\<close>

lemma setupPowerShell_already:
  assumes "files s (profilePath s) = Some (File c)" and "includes_str (utf8_text c) ''fnm env''"
  shows "setupPowerShell s =
           (Inr (), s\<lparr>console := console s @
              [SettingUpPowerShell, ProfileAlreadyConfigured,
               ProfileLocation (path_string (profilePath s))]\<rparr>)"
  using assms
  by (simp add: setupPowerShell_def Let_def existsSync_def readFileSync_def)

lemma setupPowerShell_append:
  assumes "files s (profilePath s) = Some (File c)"
    and "\<not> includes_str (utf8_text c) ''fnm env''"
  shows "setupPowerShell s = appendConfiguration (profilePath s) (utf8_text c) (console_log SettingUpPowerShell s)"
  using assms by (simp add: setupPowerShell_def Let_def existsSync_def readFileSync_def)

lemma setupPowerShell_directory:
  assumes "files s (profilePath s) = Some Dir"
  shows "setupPowerShell s = (Inl EISDIR, console_log SettingUpPowerShell s)"
  using assms by (simp add: setupPowerShell_def Let_def existsSync_def readFileSync_def)

lemma mkdirSync_keeps:
  "files s q = Some n \<Longrightarrow> files (snd (mkdirSync p s)) q = Some n"
  by (simp add: mkdirSync_def mkdirs_keeps)

lemma setupPowerShell_new:
  assumes "files s (profilePath s) = None"
  shows "\<exists>s'. setupPowerShell s = appendConfiguration (profilePath s) [] s'
            \<and> (\<forall>q n. files s q = Some n \<longrightarrow> files s' q = Some n)
            \<and> home s' = home s \<and> denied s' = denied s \<and> shell s' = shell s
            \<and> spawned s' = spawned s
       \<or> (\<exists>e s'. setupPowerShell s = (Inl e, s')
            \<and> (\<forall>q n. files s q = Some n \<longrightarrow> files s' q = Some n)
            \<and> home s' = home s \<and> denied s' = denied s \<and> shell s' = shell s
            \<and> spawned s' = spawned s)"
proof -
  have ne: "\<not> existsSync s (profilePath s)"
    using assms by (simp add: existsSync_def)
  show ?thesis
  proof (cases "existsSync s (join_dotdot (profilePath s))")
  case True
  with ne have "setupPowerShell s = appendConfiguration (profilePath s) [] (console_log SettingUpPowerShell s)"
    by (simp add: setupPowerShell_def Let_def)
  then show ?thesis by auto
next
  case False
  let ?s1 = "console_log SettingUpPowerShell s"
  let ?m = "mkdirSync (join_dotdot (profilePath s)) ?s1"
  have keep: "\<forall>q n. files s q = Some n \<longrightarrow> files (snd ?m) q = Some n"
    using mkdirSync_keeps [of ?s1] by simp
  have frame: "home (snd ?m) = home s \<and> denied (snd ?m) = denied s \<and> shell (snd ?m) = shell s
      \<and> spawned (snd ?m) = spawned s"
    using mkdirSync_frame [of "join_dotdot (profilePath s)" ?s1] by simp
  show ?thesis
  proof (cases "fst ?m")
    case (Inl e)
    with False ne have "setupPowerShell s = (Inl e, snd ?m)"
      by (simp add: setupPowerShell_def Let_def case_prod_beta)
    with keep frame show ?thesis by blast
  next
    case (Inr u)
    with False ne have "setupPowerShell s = appendConfiguration (profilePath s) [] (snd ?m)"
      by (simp add: setupPowerShell_def Let_def case_prod_beta)
    with keep frame show ?thesis by blast
  qed
  qed
qed

lemma setupPowerShell_frame:
  "home (snd (setupPowerShell s)) = home s \<and> denied (snd (setupPowerShell s)) = denied s
   \<and> shell (snd (setupPowerShell s)) = shell s
   \<and> spawned (snd (setupPowerShell s)) = spawned s"
proof (cases "files s (profilePath s)")
  case None
  from setupPowerShell_new [OF None] show ?thesis
    by (auto simp: appendConfiguration_frame)
next
  case (Some n)
  show ?thesis
  proof (cases n)
    case (File c)
    with Some show ?thesis
      by (cases "includes_str (utf8_text c) ''fnm env''")
         (simp_all add: setupPowerShell_already setupPowerShell_append appendConfiguration_frame)
  next
    case Dir
    with Some show ?thesis by (simp add: setupPowerShell_directory)
  qed
qed

text \<open>A run never removes a file or a directory, and only the profile file changes.\<close>

lemma setupPowerShell_keeps:
  assumes "files s q = Some n" and "q \<noteq> profilePath s"
  shows "files (snd (setupPowerShell s)) q = Some n"
proof (cases "files s (profilePath s)")
  case None
  from setupPowerShell_new [OF None] assms show ?thesis
    by (auto simp: appendConfiguration_other)
next
  case (Some m)
  show ?thesis
  proof (cases m)
    case (File c)
    with Some assms show ?thesis
      by (cases "includes_str (utf8_text c) ''fnm env''")
         (simp_all add: setupPowerShell_already setupPowerShell_append appendConfiguration_other)
  next
    case Dir
    with Some assms show ?thesis by (simp add: setupPowerShell_directory)
  qed
qed

lemma profilePath_exists_cases:
  "profilePath s = POWERSHELL_PROFILE_5 (home s)
   \<or> (profilePath s = POWERSHELL_PROFILE_6 (home s) \<and> files s (POWERSHELL_PROFILE_5 (home s)) = None
       \<and> files s (POWERSHELL_PROFILE_6 (home s)) \<noteq> None)"
  by (simp add: profilePath_def existsSync_def)

text \<open>After a run that returned, the profile is a file with the marker, at the same path.\<close>

lemma setupPowerShell_configured:
  assumes "fst (setupPowerShell s) = Inr u"
  shows "\<exists>c. files (snd (setupPowerShell s)) (profilePath s) = Some (File c)
           \<and> includes_str c ''fnm env''"
proof (cases "files s (profilePath s)")
  case None
  from setupPowerShell_new [OF None] assms
  obtain s' where "setupPowerShell s = appendConfiguration (profilePath s) [] s'"
    by auto
  with assms appendConfiguration_Inr [of "profilePath s" "[]" s' u]
  show ?thesis by (simp add: newContent_includes_marker)
next
  case (Some m)
  show ?thesis
  proof (cases m)
    case (File c)
    show ?thesis
    proof (cases "includes_str (utf8_text c) ''fnm env''")
      case True
      have "includes_str c ''fnm env''"
      proof (rule includes_utf8_text_back [OF marker_ascii])
        show "''fnm env'' \<noteq> []" by simp
        show "includes_str (utf8_text c) ''fnm env''" by (rule True)
      qed
      with True Some File show ?thesis by (simp add: setupPowerShell_already)
    next
      case False
      with Some File have "setupPowerShell s = appendConfiguration (profilePath s) (utf8_text c) (console_log SettingUpPowerShell s)"
        by (simp add: setupPowerShell_append)
      with assms appendConfiguration_Inr [of "profilePath s" "utf8_text c" "console_log SettingUpPowerShell s" u]
      show ?thesis by (simp add: newContent_includes_marker)
    qed
  next
    case Dir
    with Some assms show ?thesis by (simp add: setupPowerShell_directory)
  qed
qed

lemma setupPowerShell_same_path:
  assumes "fst (setupPowerShell s) = Inr u"
  shows "profilePath (snd (setupPowerShell s)) = profilePath s"
proof -
  let ?s' = "snd (setupPowerShell s)"
  have h: "home ?s' = home s" by (simp add: setupPowerShell_frame)
  from setupPowerShell_configured [OF assms]
  have ex: "files ?s' (profilePath s) \<noteq> None" by auto
  from profilePath_exists_cases [of s] show ?thesis
  proof
    assume p5: "profilePath s = POWERSHELL_PROFILE_5 (home s)"
    with ex h show ?thesis by (simp add: profilePath_def existsSync_def)
  next
    assume p6: "profilePath s = POWERSHELL_PROFILE_6 (home s) \<and> files s (POWERSHELL_PROFILE_5 (home s)) = None
       \<and> files s (POWERSHELL_PROFILE_6 (home s)) \<noteq> None"
    then obtain m where m: "files s (profilePath s) = Some m" by auto
    have "files ?s' (POWERSHELL_PROFILE_5 (home s)) = None"
    proof (cases m)
      case (File c)
      with m p6 profile_paths_differ [of "home s"] show ?thesis
        by (cases "includes_str (utf8_text c) ''fnm env''")
           (simp_all add: setupPowerShell_already setupPowerShell_append appendConfiguration_other)
    next
      case Dir
      with m p6 show ?thesis by (simp add: setupPowerShell_directory)
    qed
    with ex h p6 show ?thesis by (simp add: profilePath_def existsSync_def)
  qed
qed

lemma setupPowerShell_twice:
  assumes "fst (setupPowerShell s) = Inr u"
  shows "setupPowerShell (snd (setupPowerShell s)) =
           (Inr (), (snd (setupPowerShell s))\<lparr>console := console (snd (setupPowerShell s)) @
              [SettingUpPowerShell, ProfileAlreadyConfigured,
               ProfileLocation (path_string (profilePath s))]\<rparr>)"
proof -
  from setupPowerShell_configured [OF assms] obtain c
    where "files (snd (setupPowerShell s)) (profilePath s) = Some (File c)"
      and raw: "includes_str c ''fnm env''" by blast
  moreover from raw have "includes_str (utf8_text c) ''fnm env''"
    by (rule includes_utf8_text [OF _ marker_ascii])
  ultimately have "files (snd (setupPowerShell s)) (profilePath s) = Some (File c)"
      and "includes_str (utf8_text c) ''fnm env''"
    by simp_all
  with setupPowerShell_same_path [OF assms]
       setupPowerShell_already [of "snd (setupPowerShell s)" c]
  show ?thesis by simp
qed


subsection \<open>Facts about \<^verbatim>\<open>setupCmd\<close>\<close>

lemma manualSetup_fields [simp]:
  "home (manualSetup s) = home s"
  "files (manualSetup s) = files s"
  "denied (manualSetup s) = denied s"
  "shell (manualSetup s) = shell s"
  "spawned (manualSetup s) = spawned s"
  "console (manualSetup s) = console s @
     [AutoRunNotConfigured, ManualSetup, ManualKey (regPath @ bslash # ''AutoRun''),
      ManualValue (path_string (CMD_INIT_FILE (home s)))]"
  by (simp_all add: manualSetup_def)

lemma execSync_snd [simp]: "snd (execSync c s) = s\<lparr>spawned := spawned s @ [c]\<rparr>"
  by (simp add: execSync_def Let_def split: option.splits)

lemma execSync_fst [simp]:
  "fst (execSync c s) = (case shell s c of None \<Rightarrow> Inl CommandFailed | Some output \<Rightarrow> Inr output)"
  by (simp add: execSync_def Let_def split: option.splits)

lemma setupCmd_frame:
  "home (snd (setupCmd s)) = home s \<and> denied (snd (setupCmd s)) = denied s
   \<and> shell (snd (setupCmd s)) = shell s"
  using writeFileSync_cases [of "CMD_INIT_FILE (home s)" cmdContent "console_log SettingUpCmd s"]
  by (auto simp: setupCmd_def Let_def case_prod_beta split: option.splits sum.splits)

lemma setupCmd_throws:
  assumes "fst (setupCmd s) = Inl e"
  shows "snd (setupCmd s) = console_log SettingUpCmd s"
  using writeFileSync_cases [of "CMD_INIT_FILE (home s)" cmdContent "console_log SettingUpCmd s"] assms
  by (auto simp: setupCmd_def Let_def case_prod_beta split: option.splits sum.splits)

lemma setupCmd_files:
  assumes "fst (setupCmd s) = Inr u"
  shows "files (snd (setupCmd s)) = (files s)(CMD_INIT_FILE (home s) \<mapsto> File cmdContent)"
  using writeFileSync_cases [of "CMD_INIT_FILE (home s)" cmdContent "console_log SettingUpCmd s"] assms
  by (auto simp: setupCmd_def Let_def case_prod_beta split: option.splits sum.splits)

lemma setupCmd_query_fails:
  assumes "fst (setupCmd s) = Inr u" and "shell s regQueryCommand = None"
  shows "spawned (snd (setupCmd s)) = spawned s @ [regQueryCommand]"
    and "console (snd (setupCmd s)) = console s @
          [SettingUpCmd, CreatedInitScript (path_string (CMD_INIT_FILE (home s))),
           AutoRunNotConfigured, ManualSetup, ManualKey (regPath @ bslash # ''AutoRun''),
           ManualValue (path_string (CMD_INIT_FILE (home s)))]"
  using writeFileSync_cases [of "CMD_INIT_FILE (home s)" cmdContent "console_log SettingUpCmd s"] assms
  by (auto simp: setupCmd_def Let_def case_prod_beta split: option.splits sum.splits)

lemma setupCmd_already:
  assumes "fst (setupCmd s) = Inr u" and "shell s regQueryCommand = Some q"
    and "includes_str (trim q) (path_string (CMD_INIT_FILE (home s)))"
  shows "spawned (snd (setupCmd s)) = spawned s @ [regQueryCommand]"
    and "console (snd (setupCmd s)) = console s @
          [SettingUpCmd, CreatedInitScript (path_string (CMD_INIT_FILE (home s))),
           AutoRunAlreadyConfigured]"
  using writeFileSync_cases [of "CMD_INIT_FILE (home s)" cmdContent "console_log SettingUpCmd s"] assms
  by (auto simp: setupCmd_def Let_def case_prod_beta split: option.splits sum.splits)

lemma setupCmd_add:
  assumes "fst (setupCmd s) = Inr u" and "shell s regQueryCommand = Some q"
    and "\<not> includes_str (trim q) (path_string (CMD_INIT_FILE (home s)))"
  shows "spawned (snd (setupCmd s)) =
           spawned s @ [regQueryCommand, regAddCommand (newAutoRun (home s) (trim q))]"
    and "shell s (regAddCommand (newAutoRun (home s) (trim q))) = None \<Longrightarrow>
         console (snd (setupCmd s)) = console s @
          [SettingUpCmd, CreatedInitScript (path_string (CMD_INIT_FILE (home s))),
           AutoRunNotConfigured, ManualSetup, ManualKey (regPath @ bslash # ''AutoRun''),
           ManualValue (path_string (CMD_INIT_FILE (home s)))]"
    and "shell s (regAddCommand (newAutoRun (home s) (trim q))) \<noteq> None \<Longrightarrow>
         console (snd (setupCmd s)) = console s @
          [SettingUpCmd, CreatedInitScript (path_string (CMD_INIT_FILE (home s))),
           AutoRunConfigured]"
  using writeFileSync_cases [of "CMD_INIT_FILE (home s)" cmdContent "console_log SettingUpCmd s"] assms
  by (auto simp: setupCmd_def Let_def case_prod_beta split: option.splits sum.splits)

lemma regAddCommand_not_other:
  "regAddCommand v \<noteq> regQueryCommand" "regAddCommand v \<noteq> ''fnm --version''"
  by (simp_all add: regAddCommand_def regQueryCommand_def)

subsection \<open>Facts about the whole script\<close>

lemma nextSteps_fields [simp]:
  "home (nextSteps s) = home s"
  "files (nextSteps s) = files s"
  "denied (nextSteps s) = denied s"
  "shell (nextSteps s) = shell s"
  "spawned (nextSteps s) = spawned s"
  "console (nextSteps s) = console s @
     [SetupComplete, NextSteps, NextStep1, NextStep2, NextStep3, NextStep4, Tip]"
  by (simp_all add: nextSteps_def)

text \<open>The state in which \<open>main\<close> calls \<open>setupPowerShell\<close>, and then \<open>setupCmd\<close>.\<close>

lemma main_fnm_missing:
  assumes "shell s ''fnm --version'' = None"
  shows "fst (main s) = 1" and "spawned (snd (main s)) = spawned s @ [''fnm --version'']"
    and "files (snd (main s)) = files s" and "home (snd (main s)) = home s"
  using assms by (simp_all add: main_def case_prod_beta)

lemma main_fnm_present:
  assumes "shell s ''fnm --version'' = Some ver"
  shows "main s =
     (case setupPowerShell (console_log FnmInstalled
              ((console_log SettingUpFnm s)\<lparr>spawned := spawned s @ [''fnm --version'']\<rparr>)) of
        (Inl e, s2) \<Rightarrow> (1, console_log (ErrorDuringSetup e) s2)
      | (Inr _, s2) \<Rightarrow>
          (case setupCmd s2 of
             (Inl e, s3) \<Rightarrow> (1, console_log (ErrorDuringSetup e) s3)
           | (Inr _, s3) \<Rightarrow> (0, nextSteps s3)))"
  using assms by (simp add: main_def case_prod_beta)

lemma profilePath_not_init_file: "profilePath s \<noteq> CMD_INIT_FILE (home s)"
  by (simp add: profilePath_def POWERSHELL_PROFILE_5_def POWERSHELL_PROFILE_6_def
      CMD_INIT_FILE_def join_def)

lemma main_home: "home (snd (main s)) = home s"
proof (cases "shell s ''fnm --version''")
  case None
  then show ?thesis by (simp add: main_fnm_missing)
next
  case (Some ver)
  let ?a = "console_log FnmInstalled
              ((console_log SettingUpFnm s)\<lparr>spawned := spawned s @ [''fnm --version'']\<rparr>)"
  have "home (snd (setupPowerShell ?a)) = home s"
    using setupPowerShell_frame [of ?a] by simp
  moreover have "home (snd (setupCmd (snd (setupPowerShell ?a)))) = home (snd (setupPowerShell ?a))"
    by (simp add: setupCmd_frame)
  ultimately show ?thesis
    by (simp add: main_fnm_present [OF Some] case_prod_beta split: sum.splits)
qed

lemma main_writes_init_file:
  assumes "fst (main s) = 0"
  shows "files (snd (main s)) (CMD_INIT_FILE (home s)) = Some (File cmdContent)"
proof (cases "shell s ''fnm --version''")
  case None
  with assms show ?thesis by (simp add: main_fnm_missing)
next
  case (Some ver)
  let ?a = "console_log FnmInstalled
              ((console_log SettingUpFnm s)\<lparr>spawned := spawned s @ [''fnm --version'']\<rparr>)"
  let ?b = "snd (setupPowerShell ?a)"
  have hb: "home ?b = home s"
    using setupPowerShell_frame [of ?a] by simp
  from assms Some obtain u where u: "fst (setupCmd ?b) = Inr u"
    by (auto simp: main_fnm_present case_prod_beta split: sum.splits)
  from assms Some u have "snd (main s) = nextSteps (snd (setupCmd ?b))"
    by (auto simp: main_fnm_present case_prod_beta split: sum.splits)
  with setupCmd_files [OF u] hb show ?thesis by simp
qed

lemma main_keeps_init_file:
  assumes "files s (CMD_INIT_FILE (home s)) = Some (File cmdContent)"
  shows "files (snd (main s)) (CMD_INIT_FILE (home s)) = Some (File cmdContent)"
proof (cases "shell s ''fnm --version''")
  case None
  with assms show ?thesis by (simp add: main_fnm_missing)
next
  case (Some ver)
  let ?a = "console_log FnmInstalled
              ((console_log SettingUpFnm s)\<lparr>spawned := spawned s @ [''fnm --version'']\<rparr>)"
  let ?b = "snd (setupPowerShell ?a)"
  have hb: "home ?b = home s"
    using setupPowerShell_frame [of ?a] by simp
  have "profilePath ?a \<noteq> CMD_INIT_FILE (home s)"
    using profilePath_not_init_file [of ?a] by simp
  with assms have fb: "files ?b (CMD_INIT_FILE (home s)) = Some (File cmdContent)"
    using setupPowerShell_keeps [of ?a "CMD_INIT_FILE (home s)" "File cmdContent"] by simp
  have fc: "files (snd (setupCmd ?b)) (CMD_INIT_FILE (home s)) = Some (File cmdContent)"
  proof (cases "fst (setupCmd ?b)")
    case (Inl e)
    with fb show ?thesis by (simp add: setupCmd_throws)
  next
    case (Inr u)
    with hb show ?thesis by (simp add: setupCmd_files)
  qed
  from fb fc show ?thesis
    by (simp add: main_fnm_present [OF Some] case_prod_beta split: sum.splits)
qed

lemma reruns_keep_init_file:
  "files s (CMD_INIT_FILE (home s)) = Some (File cmdContent) \<Longrightarrow>
   files (reruns later s) (CMD_INIT_FILE (home s)) = Some (File cmdContent)
   \<and> home (reruns later s) = home s"
proof (induction later arbitrary: s)
  case Nil
  then show ?case by simp
next
  case (Cons a rest)
  let ?s1 = "snd (main (s\<lparr>shell := a\<rparr>))"
  have h: "home ?s1 = home s"
    using main_home [of "s\<lparr>shell := a\<rparr>"] by simp
  have "files ?s1 (CMD_INIT_FILE (home s)) = Some (File cmdContent)"
    using main_keeps_init_file [of "s\<lparr>shell := a\<rparr>"] Cons.prems by simp
  with Cons.IH [of ?s1] h show ?case by simp
qed

subsection \<open>Running \<^verbatim>\<open>setupPowerShell\<close> again\<close>

lemma mkdirs_again: "mkdirs ds (snd (mkdirs ds s)) = mkdirs ds s"
proof (induction ds s rule: mkdirs.induct)
  case (1 s)
  then show ?case by simp
next
  case (2 d ds s)
  show ?case
  proof (cases "files s d")
    case None
    show ?thesis
    proof (cases "d \<in> denied s")
      case True
      with None show ?thesis by simp
    next
      case False
      let ?s1 = "s\<lparr>files := (files s)(d \<mapsto> Dir)\<rparr>"
      have "files (snd (mkdirs ds ?s1)) d = Some Dir"
        by (rule mkdirs_keeps) simp
      with None False "2.IH"(1) [OF None False] show ?thesis
        by simp
    qed
  next
    case (Some n)
    show ?thesis
    proof (cases n)
      case (File c)
      with Some show ?thesis by simp
    next
      case Dir
      with Some have "files (snd (mkdirs ds s)) d = Some Dir"
        by (simp add: mkdirs_keeps)
      with Some Dir "2.IH"(2) [OF Some Dir] show ?thesis by simp
    qed
  qed
qed

lemma mkdirs_only:
  "q \<notin> set ds \<Longrightarrow> files (snd (mkdirs ds s)) q = files s q"
  by (induction ds s rule: mkdirs.induct) (auto split: option.splits node.splits)

lemma mkdirs_made:
  "fst (mkdirs ds s) = Inr u \<Longrightarrow> d \<in> set ds \<Longrightarrow> files (snd (mkdirs ds s)) d = Some Dir"
proof (induction ds s rule: mkdirs.induct)
  case (1 s)
  then show ?case by simp
next
  case (2 x ds s)
  show ?case
  proof (cases "d = x")
    case True
    from "2.prems"(1) consider "files s x = Some Dir" | "files s x = None" "x \<notin> denied s"
      by (auto split: option.splits node.splits if_splits)
    then show ?thesis
    proof cases
      case 1
      with True show ?thesis by (simp add: mkdirs_keeps)
    next
      case 2
      have "files (snd (mkdirs ds (s\<lparr>files := (files s)(x \<mapsto> Dir)\<rparr>))) x = Some Dir"
        by (rule mkdirs_keeps) simp
      with 2 True show ?thesis by simp
    qed
  next
    case False
    with "2.prems" have "d \<in> set ds" by simp
    with "2.IH" "2.prems"(1) show ?thesis
      by (auto split: option.splits node.splits if_splits)
  qed
qed

lemma mkdirs_failed_last:
  "fst (mkdirs (ds @ [d]) s) = Inl e \<Longrightarrow> d \<notin> set ds \<Longrightarrow> files s d = None \<Longrightarrow>
   files (snd (mkdirs (ds @ [d]) s)) d = None"
proof (induction ds arbitrary: s)
  case Nil
  then show ?case by (auto split: option.splits node.splits if_splits)
next
  case (Cons x ds)
  from Cons.prems(2) have xd: "x \<noteq> d" and nd: "d \<notin> set ds" by auto
  show ?case
  proof (cases "files s x")
    case None
    show ?thesis
    proof (cases "x \<in> denied s")
      case True
      with None Cons.prems show ?thesis by simp
    next
      case False
      let ?s1 = "s\<lparr>files := (files s)(x \<mapsto> Dir)\<rparr>"
      from None False Cons.prems(1) have "fst (mkdirs (ds @ [d]) ?s1) = Inl e" by simp
      moreover from Cons.prems(3) xd have "files ?s1 d = None" by simp
      ultimately have "files (snd (mkdirs (ds @ [d]) ?s1)) d = None"
        using Cons.IH nd by blast
      with None False show ?thesis by simp
    qed
  next
    case (Some n)
    show ?thesis
    proof (cases n)
      case (File c)
      with Some Cons.prems show ?thesis by simp
    next
      case Dir
      with Some Cons.prems(1) have "fst (mkdirs (ds @ [d]) s) = Inl e" by simp
      with Cons.IH nd Cons.prems(3) have "files (snd (mkdirs (ds @ [d]) s)) d = None" by blast
      with Some Dir show ?thesis by simp
    qed
  qed
qed

lemma tl_prefixes_snoc:
  assumes "p \<noteq> []"
  shows "tl (prefixes p) = butlast (tl (prefixes p)) @ [p]"
proof -
  from assms obtain x xs where p: "p = x # xs" by (cases p) auto
  have ne: "tl (prefixes p) \<noteq> []" by (simp add: p)
  then have "last (tl (prefixes p)) = last (prefixes p)"
    by (simp add: last_tl p)
  then have "last (tl (prefixes p)) = p" by simp
  with ne show ?thesis by (metis append_butlast_last_id)
qed

lemma not_in_butlast_tl_prefixes:
  assumes "p \<noteq> []"
  shows "p \<notin> set (butlast (tl (prefixes p)))"
proof -
  have "distinct (tl (prefixes p))" by (rule distinct_tl) (rule distinct_prefixes)
  with tl_prefixes_snoc [OF assms] have "distinct (butlast (tl (prefixes p)) @ [p])" by simp
  then show ?thesis by simp
qed

lemma self_in_tl_prefixes: "p \<noteq> [] \<Longrightarrow> p \<in> set (tl (prefixes p))"
  using tl_prefixes_snoc [of p] by (metis in_set_conv_decomp)

text \<open>What a run does to the files depends on the home, the files and the refusals only.\<close>

lemma writeFileSync_cong:
  assumes "files s = files t" and "denied s = denied t"
  shows "fst (writeFileSync p c s) = fst (writeFileSync p c t)"
    and "files (snd (writeFileSync p c s)) = files (snd (writeFileSync p c t))"
  using assms by (simp_all add: writeFileSync_def)

lemma appendConfiguration_cong:
  assumes "files s = files t" and "denied s = denied t"
  shows "fst (appendConfiguration p c s) = fst (appendConfiguration p c t)"
    and "files (snd (appendConfiguration p c s)) = files (snd (appendConfiguration p c t))"
  using writeFileSync_cong [OF assms, of p "newContent c"]
  by (auto simp: appendConfiguration_def case_prod_beta split: sum.splits)

lemma mkdirs_cong:
  "files s = files t \<Longrightarrow> denied s = denied t \<Longrightarrow>
   fst (mkdirs ds s) = fst (mkdirs ds t) \<and> files (snd (mkdirs ds s)) = files (snd (mkdirs ds t))"
proof (induction ds arbitrary: s t)
  case Nil
  then show ?case by simp
next
  case (Cons d ds)
  show ?case
  proof (cases "files t d")
    case None
    show ?thesis
    proof (cases "d \<in> denied t")
      case True
      with None Cons.prems show ?thesis by simp
    next
      case False
      from Cons.prems
      have "fst (mkdirs ds (s\<lparr>files := (files s)(d \<mapsto> Dir)\<rparr>)) = fst (mkdirs ds (t\<lparr>files := (files t)(d \<mapsto> Dir)\<rparr>))
          \<and> files (snd (mkdirs ds (s\<lparr>files := (files s)(d \<mapsto> Dir)\<rparr>)))
              = files (snd (mkdirs ds (t\<lparr>files := (files t)(d \<mapsto> Dir)\<rparr>)))"
        by (intro Cons.IH) simp_all
      with None False Cons.prems show ?thesis by simp
    qed
  next
    case (Some n)
    with Cons.prems Cons.IH [of s t] show ?thesis
      by (cases n) simp_all
  qed
qed

lemma profilePath_cong:
  "home s = home t \<Longrightarrow> files s = files t \<Longrightarrow> profilePath s = profilePath t"
  by (simp add: profilePath_def existsSync_def)

lemma setupPowerShell_cong:
  assumes "home s = home t" and "files s = files t" and "denied s = denied t"
  shows "fst (setupPowerShell s) = fst (setupPowerShell t)
         \<and> files (snd (setupPowerShell s)) = files (snd (setupPowerShell t))"
proof -
  let ?s1 = "console_log SettingUpPowerShell s" and ?t1 = "console_log SettingUpPowerShell t"
  have p: "profilePath s = profilePath t"
    using assms by (intro profilePath_cong)
  have f1: "files ?s1 = files ?t1" and d1: "denied ?s1 = denied ?t1"
    using assms by simp_all
  show ?thesis
  proof (cases "files t (profilePath t)")
    case None
    let ?dir = "join_dotdot (profilePath t)"
    have ne: "\<not> existsSync s (profilePath s)" "\<not> existsSync t (profilePath t)"
      using None assms p by (simp_all add: existsSync_def)
    show ?thesis
    proof (cases "existsSync t ?dir")
      case True
      with assms have "existsSync s ?dir" by (simp add: existsSync_def)
      with True ne p appendConfiguration_cong [OF f1 d1, of "profilePath t" "[]"]
      show ?thesis by (simp add: setupPowerShell_def Let_def)
    next
      case False
      with assms have ns: "\<not> existsSync s ?dir" by (simp add: existsSync_def)
      let ?ms = "mkdirSync ?dir ?s1" and ?mt = "mkdirSync ?dir ?t1"
      from mkdirs_cong [OF f1 d1, of "tl (prefixes ?dir)"]
      have m: "fst ?ms = fst ?mt" "files (snd ?ms) = files (snd ?mt)"
        by (simp_all add: mkdirSync_def)
      have dm: "denied (snd ?ms) = denied (snd ?mt)"
        using assms by (simp add: mkdirSync_frame)
      show ?thesis
      proof (cases "fst ?mt")
        case (Inl e)
        with m False ns ne p show ?thesis
          by (simp add: setupPowerShell_def Let_def case_prod_beta)
      next
        case (Inr u)
        with m False ns ne p appendConfiguration_cong [OF m(2) dm, of "profilePath t" "[]"]
        show ?thesis
          by (simp add: setupPowerShell_def Let_def case_prod_beta)
      qed
    qed
  next
    case (Some n)
    show ?thesis
    proof (cases n)
      case (File c)
      with Some assms p have fs: "files s (profilePath s) = Some (File c)" by simp
      show ?thesis
      proof (cases "includes_str (utf8_text c) ''fnm env''")
        case True
        with Some File fs show ?thesis
          using assms by (simp add: setupPowerShell_already)
      next
        case False
        with Some File fs p appendConfiguration_cong [OF f1 d1, of "profilePath t" "utf8_text c"]
        show ?thesis by (simp add: setupPowerShell_append)
      qed
    next
      case Dir
      with Some assms p have "files s (profilePath s) = Some Dir" by simp
      with Some Dir assms show ?thesis by (simp add: setupPowerShell_directory)
    qed
  qed
qed

lemma setupPowerShell_denied: "denied (snd (setupPowerShell s)) = denied s"
  by (simp add: setupPowerShell_frame)

lemma setupPowerShell_home: "home (snd (setupPowerShell s)) = home s"
  by (simp add: setupPowerShell_frame)

text \<open>A run that changed no file is repeated by the next run.\<close>

lemma setupPowerShell_again_unchanged:
  assumes "files (snd (setupPowerShell s)) = files s"
  shows "fst (setupPowerShell (snd (setupPowerShell s))) = fst (setupPowerShell s)
         \<and> files (snd (setupPowerShell (snd (setupPowerShell s)))) = files (snd (setupPowerShell s))"
  using setupPowerShell_cong [of "snd (setupPowerShell s)" s] assms
  by (simp add: setupPowerShell_denied setupPowerShell_home)

lemma length_prefixes_le:
  assumes "q \<in> set (tl (prefixes p))"
  shows "length q \<le> length p"
proof -
  from assms have "q \<in> set (prefixes p)" by (metis list.set_sel(2) prefixes_not_Nil)
  then show ?thesis by (simp add: in_set_prefixes prefix_length_le)
qed

lemma profile_dir_not_root: "join_dotdot (POWERSHELL_PROFILE_5 h) \<noteq> []"
  by (simp add: POWERSHELL_PROFILE_5_def join_def join_dotdot_def butlast_append)

lemma profile_not_prefix_of_dir:
  "POWERSHELL_PROFILE_5 h \<notin> set (tl (prefixes (join_dotdot (POWERSHELL_PROFILE_5 h))))"
  "POWERSHELL_PROFILE_6 h \<notin> set (tl (prefixes (join_dotdot (POWERSHELL_PROFILE_5 h))))"
  using length_prefixes_le [of "POWERSHELL_PROFILE_5 h" "join_dotdot (POWERSHELL_PROFILE_5 h)"]
        length_prefixes_le [of "POWERSHELL_PROFILE_6 h" "join_dotdot (POWERSHELL_PROFILE_5 h)"]
  by (auto simp: POWERSHELL_PROFILE_5_def POWERSHELL_PROFILE_6_def join_def join_dotdot_def
      butlast_append)

lemma setupPowerShell_again:
  "fst (setupPowerShell (snd (setupPowerShell s))) = fst (setupPowerShell s)
   \<and> files (snd (setupPowerShell (snd (setupPowerShell s)))) = files (snd (setupPowerShell s))"
proof (cases "fst (setupPowerShell s)")
  case (Inr u)
  then have "fst (setupPowerShell s) = Inr ()" by simp
  from setupPowerShell_twice [OF this] Inr show ?thesis by simp
next
  case (Inl e)
  let ?s1 = "console_log SettingUpPowerShell s"
  show ?thesis
  proof (cases "files s (profilePath s)")
    case (Some n)
    have "files (snd (setupPowerShell s)) = files s"
    proof (cases n)
      case (File c)
      with Some Inl show ?thesis
        by (cases "includes_str (utf8_text c) ''fnm env''")
           (simp_all add: setupPowerShell_already setupPowerShell_append appendConfiguration_Inl)
    next
      case Dir
      with Some show ?thesis by (simp add: setupPowerShell_directory)
    qed
    then show ?thesis by (rule setupPowerShell_again_unchanged)
  next
    case None
    then have ne: "\<not> existsSync s (profilePath s)" by (simp add: existsSync_def)
    from None profilePath_exists_cases [of s]
    have p5: "profilePath s = POWERSHELL_PROFILE_5 (home s)" by auto
    with None have n5: "files s (POWERSHELL_PROFILE_5 (home s)) = None" by simp
    from p5 n5 have n6: "files s (POWERSHELL_PROFILE_6 (home s)) = None"
      using profile_paths_differ [of "home s"]
      by (auto simp: profilePath_def existsSync_def split: if_splits)
    let ?dir = "join_dotdot (POWERSHELL_PROFILE_5 (home s))"
    show ?thesis
    proof (cases "existsSync s ?dir")
      case True
      with ne p5 have "setupPowerShell s = appendConfiguration (profilePath s) [] ?s1"
        by (simp add: setupPowerShell_def Let_def)
      with Inl have "files (snd (setupPowerShell s)) = files s"
        by (simp add: appendConfiguration_Inl)
      then show ?thesis by (rule setupPowerShell_again_unchanged)
    next
      case False
      let ?m = "mkdirSync ?dir ?s1"
      let ?s' = "snd (setupPowerShell s)"
      have sp: "setupPowerShell s =
          (case fst ?m of Inl e \<Rightarrow> (Inl e, snd ?m)
           | Inr u \<Rightarrow> appendConfiguration (POWERSHELL_PROFILE_5 (home s)) [] (snd ?m))"
        using False ne p5 by (simp add: setupPowerShell_def Let_def case_prod_beta split: sum.splits)
      have fs': "files ?s' = files (snd ?m)"
        using sp Inl by (auto simp: appendConfiguration_Inl split: sum.splits)
      have hs': "home ?s' = home s" and ds': "denied ?s' = denied s"
        by (simp_all add: setupPowerShell_frame)
      have n5': "files ?s' (POWERSHELL_PROFILE_5 (home s)) = None"
        using fs' n5 profile_not_prefix_of_dir(1) [of "home s"]
        by (simp add: mkdirSync_def mkdirs_only)
      have n6': "files ?s' (POWERSHELL_PROFILE_6 (home s)) = None"
        using fs' n6 profile_not_prefix_of_dir(2) [of "home s"]
        by (simp add: mkdirSync_def mkdirs_only)
      have p5': "profilePath ?s' = POWERSHELL_PROFILE_5 (home s)"
        using n6' hs' by (simp add: profilePath_def existsSync_def)
      have ne': "\<not> existsSync ?s' (profilePath ?s')"
        using p5' n5' by (simp add: existsSync_def)
      let ?t1 = "console_log SettingUpPowerShell ?s'"
      have ft: "files ?t1 = files (snd ?m)" and dt: "denied ?t1 = denied (snd ?m)"
        using fs' ds' by (simp_all add: mkdirSync_frame)
      show ?thesis
      proof (cases "fst ?m")
        case mk: (Inl e')
        with sp have r: "setupPowerShell s = (Inl e', snd ?m)" by simp
        have pre: "tl (prefixes ?dir) = butlast (tl (prefixes ?dir)) @ [?dir]"
          by (rule tl_prefixes_snoc) (rule profile_dir_not_root)
        from False have "files ?s1 ?dir = None" by (simp add: existsSync_def)
        with mk mkdirs_failed_last [of "butlast (tl (prefixes ?dir))" ?dir ?s1 e'] pre
             not_in_butlast_tl_prefixes [OF profile_dir_not_root, of "home s"]
        have "files (snd ?m) ?dir = None" by (simp add: mkdirSync_def)
        with fs' have nd': "\<not> existsSync ?s' ?dir" by (simp add: existsSync_def)
        from mkdirs_cong [OF ft dt, of "tl (prefixes ?dir)"] mkdirs_again [of "tl (prefixes ?dir)" ?s1]
        have "fst (mkdirSync ?dir ?t1) = fst ?m"
          and "files (snd (mkdirSync ?dir ?t1)) = files (snd ?m)"
          by (simp_all add: mkdirSync_def)
        with nd' ne' p5' mk r show ?thesis
          by (simp add: setupPowerShell_def Let_def case_prod_beta)
      next
        case mk: (Inr u)
        with sp have r: "setupPowerShell s = appendConfiguration (POWERSHELL_PROFILE_5 (home s)) [] (snd ?m)"
          by simp
        have "?dir \<in> set (tl (prefixes ?dir))"
          by (rule self_in_tl_prefixes) (rule profile_dir_not_root)
        with mk mkdirs_made [of "tl (prefixes ?dir)" ?s1 u ?dir]
        have "files (snd ?m) ?dir = Some Dir" by (simp add: mkdirSync_def)
        with fs' have ed': "existsSync ?s' ?dir" by (simp add: existsSync_def)
        with ne' p5'
        have r2: "setupPowerShell ?s' = appendConfiguration (POWERSHELL_PROFILE_5 (home s)) [] ?t1"
          by (simp add: setupPowerShell_def Let_def)
        from appendConfiguration_cong [OF ft dt, of "POWERSHELL_PROFILE_5 (home s)" "[]"] r r2
        show ?thesis by simp
      qed
    qed
  qed
qed

subsection \<open>Facts about the pattern\<close>

lemma re_plus_run:
  assumes "ws \<noteq> []" and "\<forall>c\<in>set ws. P c" and "rest = [] \<or> \<not> P (hd rest)"
    and "k rest = Some r"
  shows "re_plus P k (ws @ rest) = Some r"
proof -
  from assms(2,3) have "takeWhile P (ws @ rest) = ws"
    by (cases rest) (simp_all add: takeWhile_append2)
  moreover from assms(1) obtain n where n: "length ws = Suc n"
    by (cases ws) auto
  ultimately have "re_plus P k (ws @ rest) = re_backtrack k (ws @ rest) (Suc n)"
    by (simp add: re_plus_def)
  also from n assms(4) have "\<dots> = Some r"
    by simp
  finally show ?thesis .
qed

lemma re_lit_append: "re_lit l k (l @ rest) = k rest"
  by (simp add: re_lit_def)

lemma autorun_re_at_value_line:
  assumes "ws1 \<noteq> []" and "\<forall>c\<in>set ws1. isWhiteSpace c"
    and "ws2 \<noteq> []" and "\<forall>c\<in>set ws2. isWhiteSpace c"
    and "v \<noteq> []" and "\<not> isWhiteSpace (hd v)" and "\<forall>c\<in>set v. \<not> isLineTerminator c"
  shows "autorun_re_at (''AutoRun'' @ ws1 @ ''REG_SZ'' @ ws2 @ v) = Some v"
proof -
  from assms(7) have tw: "takeWhile (\<lambda>c. \<not> isLineTerminator c) v = v"
    by (simp add: takeWhile_eq_all_conv)
  have g: "re_group_dot_plus v = Some v"
    unfolding re_group_dot_plus_def Let_def tw using assms(5) by simp
  from assms(3,4,6) g have "re_plus isWhiteSpace re_group_dot_plus (ws2 @ v) = Some v"
    by (intro re_plus_run) simp_all
  then have "re_lit ''REG_SZ'' (re_plus isWhiteSpace re_group_dot_plus) (''REG_SZ'' @ ws2 @ v) = Some v"
    by (simp only: re_lit_append)
  moreover have "\<not> isWhiteSpace (hd (''REG_SZ'' @ ws2 @ v))"
    by (simp add: isWhiteSpace_def isLineTerminator_def)
  ultimately have "re_plus isWhiteSpace (re_lit ''REG_SZ'' (re_plus isWhiteSpace re_group_dot_plus))
      (ws1 @ (''REG_SZ'' @ ws2 @ v)) = Some v"
    using assms(1,2) by (intro re_plus_run) simp_all
  then show ?thesis
    unfolding autorun_re_at_def by (simp only: re_lit_append)
qed

lemma autorun_re_match_skip:
  "CHR ''A'' \<notin> set pre \<Longrightarrow> autorun_re_at rest = Some g \<Longrightarrow>
   autorun_re_match (pre @ rest) = Some g"
proof (induction pre)
  case Nil
  then show ?case by (cases rest) simp_all
next
  case (Cons c pre)
  then have "autorun_re_at (c # pre @ rest) = None"
    by (auto simp: autorun_re_at_def re_lit_def)
  with Cons show ?case by simp
qed

lemma trim_id:
  assumes "s \<noteq> []" and "\<not> isWhiteSpace (hd s)" and "\<not> isWhiteSpace (last s)"
  shows "trim s = s"
proof -
  from assms(2) have "dropWhile isWhiteSpace s = s"
    by (simp add: dropWhile_eq_self_iff)
  moreover from assms(1,3) have "dropWhile isWhiteSpace (rev s) = rev s"
    by (simp add: dropWhile_eq_self_iff hd_rev)
  ultimately show ?thesis
    by (simp add: trim_def)
qed

text \<open>
  On output whose value line reads \<^verbatim>\<open>AutoRun\<close>, white space, \<^verbatim>\<open>REG_SZ\<close>, white space and a
  value on one line, with no capital A before it, the existing value is that value.
\<close>

lemma existingValue_value_line:
  assumes "CHR ''A'' \<notin> set pre"
    and "ws1 \<noteq> []" and "\<forall>c\<in>set ws1. isWhiteSpace c"
    and "ws2 \<noteq> []" and "\<forall>c\<in>set ws2. isWhiteSpace c"
    and "v \<noteq> []" and "\<not> isWhiteSpace (hd v)" and "\<not> isWhiteSpace (last v)"
    and "\<forall>c\<in>set v. \<not> isLineTerminator c"
  shows "existingValue (pre @ ''AutoRun'' @ ws1 @ ''REG_SZ'' @ ws2 @ v) = v"
proof -
  from autorun_re_at_value_line [OF assms(2-7) assms(9)]
  have "autorun_re_match (pre @ (''AutoRun'' @ ws1 @ ''REG_SZ'' @ ws2 @ v)) = Some v"
    by (rule autorun_re_match_skip [OF assms(1)])
  with assms(6-8) show ?thesis
    by (simp add: existingValue_def trim_id)
qed

subsection \<open>When a run returns\<close>

lemma mkdirs_returns:
  "\<forall>d\<in>set ds. files s d = Some Dir \<or> (files s d = None \<and> d \<notin> denied s) \<Longrightarrow>
   fst (mkdirs ds s) = Inr ()"
proof (induction ds arbitrary: s)
  case Nil
  then show ?case by simp
next
  case (Cons d ds)
  show ?case
  proof (cases "files s d")
    case None
    with Cons.prems have nd: "d \<notin> denied s" by auto
    let ?s1 = "s\<lparr>files := (files s)(d \<mapsto> Dir)\<rparr>"
    from Cons.prems
    have "\<forall>x\<in>set ds. files ?s1 x = Some Dir \<or> (files ?s1 x = None \<and> x \<notin> denied ?s1)"
      by auto
    with Cons.IH have "fst (mkdirs ds ?s1) = Inr ()" by blast
    with None nd show ?thesis by simp
  next
    case (Some n)
    with Cons.prems have "n = Dir" by auto
    moreover from Cons.prems Cons.IH have "fst (mkdirs ds s) = Inr ()" by auto
    ultimately show ?thesis using Some by simp
  qed
qed

lemma appendConfiguration_returns:
  assumes "files s p \<noteq> Some Dir" and "files s (butlast p) = Some Dir" and "p \<notin> denied s"
  shows "fst (appendConfiguration p c s) = Inr ()"
  using assms by (simp add: appendConfiguration_def writeFileSync_def)

text \<open>
  With no profile yet, the run returns when no directory on the way to the profile is
  missing and refused or taken by a regular file, and the profile may be written.
\<close>

lemma setupPowerShell_returns_new:
  assumes "\<not> existsSync s (POWERSHELL_PROFILE_5 (home s))"
    and "\<not> existsSync s (POWERSHELL_PROFILE_6 (home s))"
    and "\<forall>d\<in>set (tl (prefixes (join_dotdot (POWERSHELL_PROFILE_5 (home s))))).
           files s d = Some Dir \<or> (files s d = None \<and> d \<notin> denied s)"
    and "POWERSHELL_PROFILE_5 (home s) \<notin> denied s"
  shows "fst (setupPowerShell s) = Inr ()"
proof -
  let ?p = "POWERSHELL_PROFILE_5 (home s)"
  let ?dir = "join_dotdot ?p"
  let ?s1 = "console_log SettingUpPowerShell s"
  from assms(2) have p: "profilePath s = ?p" by (simp add: profilePath_def)
  from assms(1) have n: "files s ?p = None" by (simp add: existsSync_def)
  have b: "butlast ?p = ?dir" by (simp add: join_dotdot_def)
  show ?thesis
  proof (cases "existsSync s ?dir")
    case True
    have "?dir \<in> set (tl (prefixes ?dir))"
      by (rule self_in_tl_prefixes) (rule profile_dir_not_root)
    with assms(3) True have "files s ?dir = Some Dir" by (auto simp: existsSync_def)
    with n assms(4) b have "fst (appendConfiguration ?p [] ?s1) = Inr ()"
      by (intro appendConfiguration_returns) simp_all
    with True assms(1) p show ?thesis by (simp add: setupPowerShell_def Let_def)
  next
    case False
    let ?m = "mkdirSync ?dir ?s1"
    from assms(3) have m: "fst ?m = Inr ()"
      unfolding mkdirSync_def by (intro mkdirs_returns) simp
    have "?dir \<in> set (tl (prefixes ?dir))"
      by (rule self_in_tl_prefixes) (rule profile_dir_not_root)
    with m mkdirs_made [of "tl (prefixes ?dir)" ?s1 "()" ?dir]
    have d: "files (snd ?m) ?dir = Some Dir" by (simp add: mkdirSync_def)
    from n profile_not_prefix_of_dir(1) [of "home s"]
    have "files (snd ?m) ?p = None" by (simp add: mkdirSync_def mkdirs_only)
    with d b assms(4) have "fst (appendConfiguration ?p [] (snd ?m)) = Inr ()"
      by (intro appendConfiguration_returns) (simp_all add: mkdirSync_frame)
    with False assms(1) p m show ?thesis
      by (simp add: setupPowerShell_def Let_def case_prod_beta)
  qed
qed

subsection \<open>The texts the script writes\<close>

lemma regAddCommand_text:
  "regAddCommand v =
     ''reg add '' @ CHR 0x22 # ''HKCU'' @ CHR 0x5C # ''Software'' @ CHR 0x5C # ''Microsoft''
     @ CHR 0x5C # ''Command Processor'' @ CHR 0x22 # '' /v AutoRun /t REG_SZ /d '' @ CHR 0x22 # v
     @ CHR 0x22 # '' /f''"
  by (simp add: regAddCommand_def regPath_def dquote_def bslash_def)

lemma regQueryCommand_text:
  "regQueryCommand =
     ''reg query '' @ CHR 0x22 # ''HKCU'' @ CHR 0x5C # ''Software'' @ CHR 0x5C # ''Microsoft''
     @ CHR 0x5C # ''Command Processor'' @ CHR 0x22 # '' /v AutoRun 2>nul''"
  by (simp add: regQueryCommand_def regPath_def dquote_def bslash_def)

lemma manualKey_text:
  "regPath @ bslash # ''AutoRun'' =
     ''HKCU'' @ CHR 0x5C # ''Software'' @ CHR 0x5C # ''Microsoft''
     @ CHR 0x5C # ''Command Processor'' @ CHR 0x5C # ''AutoRun''"
  by (simp add: regPath_def bslash_def)

lemma fnmInitLine_text:
  "fnmInitLine =
     ''fnm env --use-on-cd --corepack-enabled --shell powershell | Out-String | Invoke-Expression''"
  by (simp add: fnmInitLine_def)

lemma cmdContent_text:
  "cmdContent =
     ''@echo off\<newline>''
     @ '':: for /F will launch a new instance of cmd so we create a guard to prevent an infinite loop\<newline>''
     @ ''if not defined FNM_AUTORUN_GUARD (\<newline>''
     @ ''    set '' @ CHR 0x22 # ''FNM_AUTORUN_GUARD=AutorunGuard'' @ CHR 0x22 # ''\<newline>''
     @ ''    FOR /f '' @ CHR 0x22 # ''tokens=*'' @ CHR 0x22 # '' %%z IN ('' @ CHR 0x27
         # ''fnm env --use-on-cd --corepack-enabled --shell cmd'' @ CHR 0x27 # '') DO CALL %%z\<newline>''
     @ '')\<newline>''"
  by (simp add: cmdContent_def dquote_def)

lemma setupCmd_returns:
  assumes "files s (CMD_INIT_FILE (home s)) \<noteq> Some Dir"
    and "home s = [] \<or> files s (home s) = Some Dir"
    and "CMD_INIT_FILE (home s) \<notin> denied s"
  shows "fst (setupCmd s) = Inr ()"
proof -
  have b: "butlast (CMD_INIT_FILE (home s)) = home s"
    by (simp add: CMD_INIT_FILE_def join_def)
  from assms b have "fst (writeFileSync (CMD_INIT_FILE (home s)) cmdContent (console_log SettingUpCmd s)) = Inr ()"
    by (auto simp: writeFileSync_def)
  then show ?thesis
    by (auto simp: setupCmd_def Let_def case_prod_beta split: option.splits sum.splits)
qed

text \<open>
  With an AutoRun value of type \<^verbatim>\<open>REG_SZ\<close> the existing value is kept: when the query
  succeeds and its trimmed output does not contain the init-script path, the command run
  is \<^verbatim>\<open>reg add "HKCU\Software\Microsoft\Command Processor" /v AutoRun /t REG_SZ /d "e & p" /f\<close>
  for the init-script path \<open>p\<close> and the value \<open>e\<close> that the pattern extracts, if that is
  not empty, and the same with \<^verbatim>\<open>/d "p"\<close> otherwise. On output whose value line reads
  \<^verbatim>\<open>AutoRun\<close>, white space, \<^verbatim>\<open>REG_SZ\<close>, white space and a value \<open>v\<close> up to the end, \<open>e\<close> is \<open>v\<close>.
\<close>

lemma setupCmd_appends_to_existing:
  assumes "fst (setupCmd s) = Inr ()"
    and "shell s regQueryCommand = Some output"
    and "\<not> includes_str (trim output) (path_string (CMD_INIT_FILE (home s)))"
  shows "spawned (snd (setupCmd s)) =
           spawned s @
             [''reg query '' @ CHR 0x22 # ''HKCU'' @ CHR 0x5C # ''Software'' @ CHR 0x5C # ''Microsoft''
                @ CHR 0x5C # ''Command Processor'' @ CHR 0x22 # '' /v AutoRun 2>nul'',
              ''reg add '' @ CHR 0x22 # ''HKCU'' @ CHR 0x5C # ''Software'' @ CHR 0x5C # ''Microsoft''
                @ CHR 0x5C # ''Command Processor'' @ CHR 0x22 # '' /v AutoRun /t REG_SZ /d '' @ CHR 0x22
                # (if existingValue (trim output) = [] then path_string (home s @ [''fnm_init.cmd''])
                   else existingValue (trim output) @ '' & '' @ path_string (home s @ [''fnm_init.cmd'']))
                @ CHR 0x22 # '' /f'']"
    and "trim output = pre @ ''AutoRun'' @ ws1 @ ''REG_SZ'' @ ws2 @ v
         \<and> CHR ''A'' \<notin> set pre
         \<and> ws1 \<noteq> [] \<and> list_all isWhiteSpace ws1
         \<and> ws2 \<noteq> [] \<and> list_all isWhiteSpace ws2
         \<and> v \<noteq> [] \<and> \<not> isWhiteSpace (hd v) \<and> \<not> isWhiteSpace (last v)
         \<and> list_all (\<lambda>c. \<not> isLineTerminator c) v \<Longrightarrow>
         spawned (snd (setupCmd s)) =
           spawned s @
             [''reg query '' @ CHR 0x22 # ''HKCU'' @ CHR 0x5C # ''Software'' @ CHR 0x5C # ''Microsoft''
                @ CHR 0x5C # ''Command Processor'' @ CHR 0x22 # '' /v AutoRun 2>nul'',
              ''reg add '' @ CHR 0x22 # ''HKCU'' @ CHR 0x5C # ''Software'' @ CHR 0x5C # ''Microsoft''
                @ CHR 0x5C # ''Command Processor'' @ CHR 0x22 # '' /v AutoRun /t REG_SZ /d '' @ CHR 0x22
                # v @ '' & '' @ path_string (home s @ [''fnm_init.cmd'']) @ CHR 0x22 # '' /f'']"
proof -
  show g: "spawned (snd (setupCmd s)) =
           spawned s @
             [''reg query '' @ CHR 0x22 # ''HKCU'' @ CHR 0x5C # ''Software'' @ CHR 0x5C # ''Microsoft''
                @ CHR 0x5C # ''Command Processor'' @ CHR 0x22 # '' /v AutoRun 2>nul'',
              ''reg add '' @ CHR 0x22 # ''HKCU'' @ CHR 0x5C # ''Software'' @ CHR 0x5C # ''Microsoft''
                @ CHR 0x5C # ''Command Processor'' @ CHR 0x22 # '' /v AutoRun /t REG_SZ /d '' @ CHR 0x22
                # (if existingValue (trim output) = [] then path_string (home s @ [''fnm_init.cmd''])
                   else existingValue (trim output) @ '' & '' @ path_string (home s @ [''fnm_init.cmd'']))
                @ CHR 0x22 # '' /f'']"
    using setupCmd_add(1) [OF assms]
    by (simp add: newAutoRun_def regAddCommand_text regQueryCommand_text CMD_INIT_FILE_def join_def)
  assume shape: "trim output = pre @ ''AutoRun'' @ ws1 @ ''REG_SZ'' @ ws2 @ v
         \<and> CHR ''A'' \<notin> set pre
         \<and> ws1 \<noteq> [] \<and> list_all isWhiteSpace ws1
         \<and> ws2 \<noteq> [] \<and> list_all isWhiteSpace ws2
         \<and> v \<noteq> [] \<and> \<not> isWhiteSpace (hd v) \<and> \<not> isWhiteSpace (last v)
         \<and> list_all (\<lambda>c. \<not> isLineTerminator c) v"
  then have "existingValue (pre @ ''AutoRun'' @ ws1 @ ''REG_SZ'' @ ws2 @ v) = v"
    by (intro existingValue_value_line) (simp_all add: list_all_iff)
  with shape have "existingValue (trim output) = v" and "v \<noteq> []"
    by simp_all
  with g show "spawned (snd (setupCmd s)) =
           spawned s @
             [''reg query '' @ CHR 0x22 # ''HKCU'' @ CHR 0x5C # ''Software'' @ CHR 0x5C # ''Microsoft''
                @ CHR 0x5C # ''Command Processor'' @ CHR 0x22 # '' /v AutoRun 2>nul'',
              ''reg add '' @ CHR 0x22 # ''HKCU'' @ CHR 0x5C # ''Software'' @ CHR 0x5C # ''Microsoft''
                @ CHR 0x5C # ''Command Processor'' @ CHR 0x22 # '' /v AutoRun /t REG_SZ /d '' @ CHR 0x22
                # v @ '' & '' @ path_string (home s @ [''fnm_init.cmd'']) @ CHR 0x22 # '' /f'']"
    by simp
qed

subsection \<open>When the script ends with status 0\<close>

lemma init_file_not_on_the_way:
  "CMD_INIT_FILE h \<notin> set (tl (prefixes (join_dotdot (POWERSHELL_PROFILE_5 h))))"
proof
  assume "CMD_INIT_FILE h \<in> set (tl (prefixes (join_dotdot (POWERSHELL_PROFILE_5 h))))"
  then have "CMD_INIT_FILE h \<in> set (prefixes (join_dotdot (POWERSHELL_PROFILE_5 h)))"
    by (metis list.set_sel(2) prefixes_not_Nil)
  then have "prefix (h @ [''fnm_init.cmd'']) (h @ [''Documents'', ''WindowsPowerShell''])"
    by (simp add: in_set_prefixes CMD_INIT_FILE_def POWERSHELL_PROFILE_5_def join_def
        join_dotdot_def butlast_append)
  then show False by simp
qed

text \<open>What is not there and is neither the profile nor on the way to it is not made.\<close>

lemma setupPowerShell_makes_only:
  assumes "files s q = None" and "q \<noteq> profilePath s"
    and "q \<notin> set (tl (prefixes (join_dotdot (POWERSHELL_PROFILE_5 (home s)))))"
  shows "files (snd (setupPowerShell s)) q = None"
proof (cases "files s (profilePath s)")
  case (Some m)
  show ?thesis
  proof (cases m)
    case (File c)
    with Some assms show ?thesis
      by (cases "includes_str (utf8_text c) ''fnm env''")
         (simp_all add: setupPowerShell_already setupPowerShell_append appendConfiguration_other)
  next
    case Dir
    with Some assms show ?thesis by (simp add: setupPowerShell_directory)
  qed
next
  case None
  then have ne: "\<not> existsSync s (profilePath s)" by (simp add: existsSync_def)
  from None profilePath_exists_cases [of s]
  have p5: "profilePath s = POWERSHELL_PROFILE_5 (home s)" by auto
  let ?s1 = "console_log SettingUpPowerShell s"
  let ?dir = "join_dotdot (POWERSHELL_PROFILE_5 (home s))"
  show ?thesis
  proof (cases "existsSync s ?dir")
    case True
    with ne p5 have "setupPowerShell s = appendConfiguration (profilePath s) [] ?s1"
      by (simp add: setupPowerShell_def Let_def)
    with assms show ?thesis by (simp add: appendConfiguration_other)
  next
    case False
    let ?m = "mkdirSync ?dir ?s1"
    have sp: "setupPowerShell s =
        (case fst ?m of Inl e \<Rightarrow> (Inl e, snd ?m)
         | Inr u \<Rightarrow> appendConfiguration (POWERSHELL_PROFILE_5 (home s)) [] (snd ?m))"
      using False ne p5 by (simp add: setupPowerShell_def Let_def case_prod_beta split: sum.splits)
    have "files (snd ?m) q = None"
      using assms(1,3) by (simp add: mkdirSync_def mkdirs_only)
    with sp assms(2) p5 show ?thesis
      by (auto simp: appendConfiguration_other split: sum.splits)
  qed
qed

lemma home_not_profile: "profilePath s \<noteq> home s"
  by (simp add: profilePath_def POWERSHELL_PROFILE_5_def POWERSHELL_PROFILE_6_def join_def)

text \<open>When the whole script ends with status 0.\<close>

lemma main_returns:
  assumes "shell s ''fnm --version'' \<noteq> None"
    and "fst (setupPowerShell s) = Inr ()"
    and "files s (home s) = Some Dir"
    and "files s (CMD_INIT_FILE (home s)) \<noteq> Some Dir"
    and "CMD_INIT_FILE (home s) \<notin> denied s"
  shows "fst (main s) = 0"
proof -
  from assms(1) obtain ver where ver: "shell s ''fnm --version'' = Some ver" by auto
  let ?a = "console_log FnmInstalled
              ((console_log SettingUpFnm s)\<lparr>spawned := spawned s @ [''fnm --version'']\<rparr>)"
  let ?b = "snd (setupPowerShell ?a)"
  have "fst (setupPowerShell ?a) = fst (setupPowerShell s)"
    using setupPowerShell_cong [of ?a s] by simp
  with assms(2) have ps: "fst (setupPowerShell ?a) = Inr ()" by simp
  have hb: "home ?b = home s" "denied ?b = denied s"
    using setupPowerShell_frame [of ?a] by simp_all
  have pa: "profilePath ?a \<noteq> home s" "profilePath ?a \<noteq> CMD_INIT_FILE (home s)"
    using home_not_profile [of ?a] profilePath_not_init_file [of ?a] by simp_all
  from assms(3) pa(1) have d: "files ?b (home s) = Some Dir"
    using setupPowerShell_keeps [of ?a "home s" Dir] by simp
  have c: "files ?b (CMD_INIT_FILE (home s)) \<noteq> Some Dir"
  proof (cases "files s (CMD_INIT_FILE (home s))")
    case None
    with pa(2) init_file_not_on_the_way [of "home s"]
    have "files ?b (CMD_INIT_FILE (home s)) = None"
      using setupPowerShell_makes_only [of ?a "CMD_INIT_FILE (home s)"] by simp
    then show ?thesis by simp
  next
    case (Some n)
    with pa(2) have "files ?b (CMD_INIT_FILE (home s)) = Some n"
      using setupPowerShell_keeps [of ?a "CMD_INIT_FILE (home s)" n] by simp
    with Some assms(4) show ?thesis by simp
  qed
  from c d assms(5) hb have "fst (setupCmd ?b) = Inr ()"
    by (intro setupCmd_returns) simp_all
  with ps ver show ?thesis
    by (simp add: main_fnm_present case_prod_beta)
qed

subsection \<open>The claims\<close>

text \<open>
  Claim C1. The claim says that a failed \<^verbatim>\<open>reg query\<close> counts as "no value yet" and that
  the init-script path alone is then written. On the sample machine with no AutoRun
  value, \<^verbatim>\<open>reg query\<close> fails: \<^verbatim>\<open>setupCmd\<close> returns, and the only command it has run is the
  query. No \<^verbatim>\<open>reg add\<close> follows; the console ends with the manual instructions.
\<close>

theorem failed_query_writes_nothing:
  "shell (machine (answers None True)) regQueryCommand = None
   \<and> fst (setupCmd (machine (answers None True))) = Inr ()
   \<and> spawned (snd (setupCmd (machine (answers None True)))) = [regQueryCommand]
   \<and> console (snd (setupCmd (machine (answers None True)))) =
       [SettingUpCmd, CreatedInitScript (path_string (CMD_INIT_FILE sample_home)),
        AutoRunNotConfigured, ManualSetup, ManualKey (regPath @ bslash # ''AutoRun''),
        ManualValue (path_string (CMD_INIT_FILE sample_home))]"
  by code_simp

text \<open>
  Claim C2. When the \<^verbatim>\<open>reg add\<close> command of a run fails, the script does not abort: it
  prints the warning with the manual instructions, that is the key
  \<^verbatim>\<open>HKCU\Software\Microsoft\Command Processor\AutoRun\<close> and the path of the init script
  as the value, goes on to the closing messages and the process ends with status 0.
\<close>

theorem regAdd_failure_is_not_fatal:
  assumes "spawned s = []"
    and "regAddCommand v \<in> set (spawned (snd (main s)))"
    and "shell s (regAddCommand v) = None"
  shows "fst (main s) = 0 \<and>
         suffix [AutoRunNotConfigured, ManualSetup, ManualKey (''HKCU'' @ CHR 0x5C # ''Software'' @ CHR 0x5C # ''Microsoft''
                   @ CHR 0x5C # ''Command Processor'' @ CHR 0x5C # ''AutoRun''),
                 ManualValue (path_string (CMD_INIT_FILE (home s))),
                 SetupComplete, NextSteps, NextStep1, NextStep2, NextStep3, NextStep4, Tip]
           (console (snd (main s)))"
proof (cases "shell s ''fnm --version''")
  case None
  with assms show ?thesis by (simp add: main_fnm_missing regAddCommand_not_other manualKey_text)
next
  case (Some ver)
  let ?a = "console_log FnmInstalled
              ((console_log SettingUpFnm s)\<lparr>spawned := spawned s @ [''fnm --version'']\<rparr>)"
  let ?b = "snd (setupPowerShell ?a)"
  have fb: "home ?b = home s" "shell ?b = shell s" "spawned ?b = [''fnm --version'']"
    using setupPowerShell_frame [of ?a] assms(1) by simp_all
  show ?thesis
  proof (cases "fst (setupPowerShell ?a)")
    case (Inl e)
    with assms Some fb show ?thesis
      by (simp add: main_fnm_present case_prod_beta regAddCommand_not_other manualKey_text)
  next
    case ps: (Inr u)
    show ?thesis
    proof (cases "fst (setupCmd ?b)")
      case (Inl e)
      with assms Some fb ps show ?thesis
        by (simp add: main_fnm_present case_prod_beta setupCmd_throws regAddCommand_not_other manualKey_text)
    next
      case (Inr u')
      with Some ps have m: "main s = (0, nextSteps (snd (setupCmd ?b)))"
        by (simp add: main_fnm_present case_prod_beta)
      show ?thesis
      proof (cases "shell s regQueryCommand")
        case None
        with setupCmd_query_fails(1) [OF Inr] fb assms m show ?thesis
          by (simp add: regAddCommand_not_other manualKey_text)
      next
        case q: (Some q)
        show ?thesis
        proof (cases "includes_str (trim q) (path_string (CMD_INIT_FILE (home s)))")
          case True
          with setupCmd_already(1) [OF Inr, of q] q fb assms m show ?thesis
            by (simp add: regAddCommand_not_other manualKey_text)
        next
          case False
          with setupCmd_add(1) [OF Inr, of q] q fb assms m
          have v: "regAddCommand v = regAddCommand (newAutoRun (home s) (trim q))"
            by (simp add: regAddCommand_not_other)
          with assms(3) have "shell s (regAddCommand (newAutoRun (home s) (trim q))) = None"
            by simp
          with setupCmd_add(2) [OF Inr, of q] q fb False m show ?thesis
            by (simp add: suffix_def manualKey_text)
        qed
      qed
    qed
  qed
qed

text \<open>
  The sample machine with an AutoRun value \<^verbatim>\<open>doskey /macrofile=m.txt\<close> and a
  \<^verbatim>\<open>reg add\<close> that is refused.
\<close>

theorem regAdd_failure_is_not_fatal_witness:
  "spawned (machine (answers (Some (reg_output ''REG_SZ'' ''doskey /macrofile=m.txt'')) False)) = []
   \<and> regAddCommand (''doskey /macrofile=m.txt & C:'' @ bslash # ''Users'' @ bslash # ''me''
                      @ bslash # ''fnm_init.cmd'')
       \<in> set (spawned (snd (main (machine
                 (answers (Some (reg_output ''REG_SZ'' ''doskey /macrofile=m.txt'')) False)))))
   \<and> shell (machine (answers (Some (reg_output ''REG_SZ'' ''doskey /macrofile=m.txt'')) False))
        (regAddCommand (''doskey /macrofile=m.txt & C:'' @ bslash # ''Users'' @ bslash # ''me''
                      @ bslash # ''fnm_init.cmd'')) = None
   \<and> fst (main (machine (answers (Some (reg_output ''REG_SZ'' ''doskey /macrofile=m.txt'')) False))) = 0
   \<and> suffix [AutoRunNotConfigured, ManualSetup, ManualKey (''HKCU'' @ CHR 0x5C # ''Software'' @ CHR 0x5C # ''Microsoft''
                   @ CHR 0x5C # ''Command Processor'' @ CHR 0x5C # ''AutoRun''),
              ManualValue (path_string (CMD_INIT_FILE sample_home)),
              SetupComplete, NextSteps, NextStep1, NextStep2, NextStep3, NextStep4, Tip]
        (console (snd (main (machine
                 (answers (Some (reg_output ''REG_SZ'' ''doskey /macrofile=m.txt'')) False)))))"
proof -
  let ?m = "machine (answers (Some (reg_output ''REG_SZ'' ''doskey /macrofile=m.txt'')) False)"
  let ?v = "''doskey /macrofile=m.txt & C:'' @ bslash # ''Users'' @ bslash # ''me''
              @ bslash # ''fnm_init.cmd''"
  have h1: "spawned ?m = []"
    by (simp add: machine_def)
  have h2: "regAddCommand ?v \<in> set (spawned (snd (main ?m)))"
    by code_simp
  have h3: "shell ?m (regAddCommand ?v) = None"
    by code_simp
  have h: "home ?m = sample_home"
    by (simp add: machine_def)
  from regAdd_failure_is_not_fatal [OF h1 h2 h3] h1 h2 h3 h show ?thesis
    by simp
qed

text \<open>
  Claim C3. The claim says that an existing value that does not contain the init-script
  path is kept in front of the path, as \<^verbatim>\<open>existing & path\<close>. On the sample machine with the
  AutoRun value \<^verbatim>\<open>%USERPROFILE%\aliases.cmd\<close> of type \<^verbatim>\<open>REG_EXPAND_SZ\<close> the query succeeds,
  its output holds that value and not the init-script path, and the command run is
  \<^verbatim>\<open>reg add "HKCU\Software\Microsoft\Command Processor" /v AutoRun /t REG_SZ /d "C:\Users\me\fnm_init.cmd" /f\<close>:
  the value written is the path alone, not the existing value and the path.
\<close>

theorem expand_sz_value_is_not_kept:
  "shell (machine (answers (Some (reg_output ''REG_EXPAND_SZ''
        (''%USERPROFILE%'' @ CHR 0x5C # ''aliases.cmd''))) True)) regQueryCommand
     = Some ([CHR 0x0D, CHR 0x0A] @ ''HKEY_CURRENT_USER'' @ CHR 0x5C # ''Software'' @ CHR 0x5C # ''Microsoft''
          @ CHR 0x5C # ''Command Processor'' @ [CHR 0x0D, CHR 0x0A]
          @ ''    AutoRun    REG_EXPAND_SZ    %USERPROFILE%'' @ CHR 0x5C # ''aliases.cmd''
          @ [CHR 0x0D, CHR 0x0A, CHR 0x0D, CHR 0x0A])
   \<and> \<not> includes_str (''%USERPROFILE%'' @ CHR 0x5C # ''aliases.cmd'')
          (''C:'' @ CHR 0x5C # ''Users'' @ CHR 0x5C # ''me'' @ CHR 0x5C # ''fnm_init.cmd'')
   \<and> fst (setupCmd (machine (answers (Some (reg_output ''REG_EXPAND_SZ''
        (''%USERPROFILE%'' @ CHR 0x5C # ''aliases.cmd''))) True))) = Inr ()
   \<and> spawned (snd (setupCmd (machine (answers (Some (reg_output ''REG_EXPAND_SZ''
        (''%USERPROFILE%'' @ CHR 0x5C # ''aliases.cmd''))) True)))) =
       [''reg query '' @ CHR 0x22 # ''HKCU'' @ CHR 0x5C # ''Software'' @ CHR 0x5C # ''Microsoft''
          @ CHR 0x5C # ''Command Processor'' @ CHR 0x22 # '' /v AutoRun 2>nul'',
        ''reg add '' @ CHR 0x22 # ''HKCU'' @ CHR 0x5C # ''Software'' @ CHR 0x5C # ''Microsoft''
          @ CHR 0x5C # ''Command Processor'' @ CHR 0x22 # '' /v AutoRun /t REG_SZ /d '' @ CHR 0x22
          # ''C:'' @ CHR 0x5C # ''Users'' @ CHR 0x5C # ''me'' @ CHR 0x5C # ''fnm_init.cmd''
          @ CHR 0x22 # '' /f'']
   \<and> ''reg add '' @ CHR 0x22 # ''HKCU'' @ CHR 0x5C # ''Software'' @ CHR 0x5C # ''Microsoft''
          @ CHR 0x5C # ''Command Processor'' @ CHR 0x22 # '' /v AutoRun /t REG_SZ /d '' @ CHR 0x22
          # ''C:'' @ CHR 0x5C # ''Users'' @ CHR 0x5C # ''me'' @ CHR 0x5C # ''fnm_init.cmd''
          @ CHR 0x22 # '' /f''
       \<noteq> ''reg add '' @ CHR 0x22 # ''HKCU'' @ CHR 0x5C # ''Software'' @ CHR 0x5C # ''Microsoft''
          @ CHR 0x5C # ''Command Processor'' @ CHR 0x22 # '' /v AutoRun /t REG_SZ /d '' @ CHR 0x22
          # ''%USERPROFILE%'' @ CHR 0x5C # ''aliases.cmd & C:'' @ CHR 0x5C # ''Users'' @ CHR 0x5C # ''me''
          @ CHR 0x5C # ''fnm_init.cmd'' @ CHR 0x22 # '' /f''"
  by code_simp

text \<open>
  Claim C4. When the trimmed output of the query contains the init-script path,
  \<^verbatim>\<open>setupCmd\<close> reports that AutoRun is already configured and runs no other command: the
  query is the only command run, and it is not a \<^verbatim>\<open>reg add\<close>.
\<close>

theorem autorun_already_configured:
  assumes "fst (setupCmd s) = Inr ()"
    and "shell s regQueryCommand = Some output"
    and "includes_str (trim output) (path_string (CMD_INIT_FILE (home s)))"
  shows "spawned (snd (setupCmd s)) = spawned s @ [regQueryCommand]
         \<and> regQueryCommand \<noteq> regAddCommand v
         \<and> console (snd (setupCmd s)) = console s @
             [SettingUpCmd, CreatedInitScript (path_string (CMD_INIT_FILE (home s))),
              AutoRunAlreadyConfigured]"
  using setupCmd_already [OF assms] regAddCommand_not_other(1) [of v] by auto

theorem autorun_already_configured_witness:
  "fst (setupCmd (machine (answers (Some (reg_output ''REG_SZ''
          (''doskey /macrofile=m.txt & '' @ path_string (CMD_INIT_FILE sample_home)))) True))) = Inr ()
   \<and> includes_str (trim (reg_output ''REG_SZ''
          (''doskey /macrofile=m.txt & '' @ path_string (CMD_INIT_FILE sample_home))))
        (path_string (CMD_INIT_FILE sample_home))
   \<and> spawned (snd (setupCmd (machine (answers (Some (reg_output ''REG_SZ''
          (''doskey /macrofile=m.txt & '' @ path_string (CMD_INIT_FILE sample_home)))) True)))) =
       [regQueryCommand]
   \<and> console (snd (setupCmd (machine (answers (Some (reg_output ''REG_SZ''
          (''doskey /macrofile=m.txt & '' @ path_string (CMD_INIT_FILE sample_home)))) True)))) =
       [SettingUpCmd, CreatedInitScript (path_string (CMD_INIT_FILE sample_home)),
        AutoRunAlreadyConfigured]"
proof -
  let ?q = "reg_output ''REG_SZ'' (''doskey /macrofile=m.txt & '' @ path_string (CMD_INIT_FILE sample_home))"
  let ?m = "machine (answers (Some ?q) True)"
  have h1: "fst (setupCmd ?m) = Inr ()"
    by code_simp
  have h2: "shell ?m regQueryCommand = Some ?q"
    by code_simp
  have h: "home ?m = sample_home" "spawned ?m = []" "console ?m = []"
    by (simp_all add: machine_def)
  have h3: "includes_str (trim ?q) (path_string (CMD_INIT_FILE (home ?m)))"
    unfolding h by code_simp
  from autorun_already_configured [OF h1 h2 h3] h1 h3 h show ?thesis
    by simp
qed

text \<open>
  Claim C5. With the marker \<^verbatim>\<open>fnm env\<close> in the profile, \<^verbatim>\<open>setupPowerShell\<close> changes nothing
  but the console, where it reports the location. And a second run, right after a first
  one, ends as the first did and leaves every file as the first run left it, the
  profile among them.
\<close>

theorem second_run_leaves_profile_unchanged:
  "(files s (profilePath s) = Some (File c) \<and> includes_str c ''fnm env'' \<longrightarrow>
      setupPowerShell s =
        (Inr (), s\<lparr>console := console s @
           [SettingUpPowerShell, ProfileAlreadyConfigured,
            ProfileLocation (path_string (profilePath s))]\<rparr>))
   \<and> fst (setupPowerShell (snd (setupPowerShell s))) = fst (setupPowerShell s)
   \<and> files (snd (setupPowerShell (snd (setupPowerShell s)))) = files (snd (setupPowerShell s))"
proof (intro conjI impI)
  assume "files s (profilePath s) = Some (File c) \<and> includes_str c ''fnm env''"
  then have f: "files s (profilePath s) = Some (File c)" and raw: "includes_str c ''fnm env''"
    by simp_all
  from raw have "includes_str (utf8_text c) ''fnm env''"
    by (rule includes_utf8_text [OF _ marker_ascii])
  with f show "setupPowerShell s =
        (Inr (), s\<lparr>console := console s @
           [SettingUpPowerShell, ProfileAlreadyConfigured,
            ProfileLocation (path_string (profilePath s))]\<rparr>)"
    by (rule setupPowerShell_already)
next
  show "fst (setupPowerShell (snd (setupPowerShell s))) = fst (setupPowerShell s)"
    by (simp add: setupPowerShell_again)
  show "files (snd (setupPowerShell (snd (setupPowerShell s)))) = files (snd (setupPowerShell s))"
    by (simp add: setupPowerShell_again)
qed

text \<open>
  The first run on the sample machine creates the profile, and the second run returns
  as well. On the machine with a profile that holds the marker nothing is written.
\<close>

theorem second_run_leaves_profile_unchanged_witness:
  "fst (setupPowerShell (machine (answers None True))) = Inr ()
   \<and> fst (setupPowerShell (snd (setupPowerShell (machine (answers None True))))) = Inr ()
   \<and> files (snd (setupPowerShell (snd (setupPowerShell (machine (answers None True))))))
       = files (snd (setupPowerShell (machine (answers None True))))
   \<and> files (machine_with_profile_6 ''fnm env | iex'' (answers None True))
        (profilePath (machine_with_profile_6 ''fnm env | iex'' (answers None True)))
       = Some (File ''fnm env | iex'')
   \<and> includes_str ''fnm env | iex'' ''fnm env''
   \<and> setupPowerShell (machine_with_profile_6 ''fnm env | iex'' (answers None True)) =
        (Inr (), (machine_with_profile_6 ''fnm env | iex'' (answers None True))
           \<lparr>console := [SettingUpPowerShell, ProfileAlreadyConfigured,
               ProfileLocation (path_string (POWERSHELL_PROFILE_6 sample_home))]\<rparr>)"
proof -
  let ?m = "machine (answers None True)"
  let ?p = "machine_with_profile_6 ''fnm env | iex'' (answers None True)"
  have h1: "fst (setupPowerShell ?m) = Inr ()"
    by code_simp
  have h2: "files ?p (profilePath ?p) = Some (File ''fnm env | iex'')"
    by code_simp
  have h3: "includes_str ''fnm env | iex'' ''fnm env''"
    by code_simp
  have h4: "profilePath ?p = POWERSHELL_PROFILE_6 sample_home"
    by code_simp
  have h5: "console ?p = []"
    by (simp add: machine_with_profile_6_def machine_def)
  from second_run_leaves_profile_unchanged [of ?m "[]"]
       second_run_leaves_profile_unchanged [of ?p "''fnm env | iex''"] h1 h2 h3 h4 h5
  show ?thesis
    by simp
qed



text \<open>
  Claim C7. When neither candidate profile exists, a run that returns leaves the
  WindowsPowerShell profile with exactly two lines: the marker comment and the
  initialisation line. The run does return when every directory on the way to the
  profile is there or can be made and the profile may be written.
\<close>

theorem new_profile_is_exactly_the_block:
  assumes "\<not> existsSync s (POWERSHELL_PROFILE_5 (home s))"
    and "\<not> existsSync s (POWERSHELL_PROFILE_6 (home s))"
  shows "(fst (setupPowerShell s) = Inr () \<longrightarrow>
            files (snd (setupPowerShell s)) (POWERSHELL_PROFILE_5 (home s)) =
              Some (File (''# fnm (Fast Node Manager)\<newline>''
                @ ''fnm env --use-on-cd --corepack-enabled --shell powershell | Out-String | Invoke-Expression''
                @ ''\<newline>'')))
         \<and> (list_all (\<lambda>d. files s d = Some Dir \<or> (files s d = None \<and> d \<notin> denied s))
               (tl (prefixes (join_dotdot (POWERSHELL_PROFILE_5 (home s)))))
             \<and> POWERSHELL_PROFILE_5 (home s) \<notin> denied s \<longrightarrow>
            fst (setupPowerShell s) = Inr ())"
proof (intro conjI impI)
  assume ok: "fst (setupPowerShell s) = Inr ()"
  from assms(2) have p: "profilePath s = POWERSHELL_PROFILE_5 (home s)"
    by (simp add: profilePath_def)
  with assms(1) have none: "files s (profilePath s) = None"
    by (simp add: existsSync_def)
  from setupPowerShell_new [OF none] ok
  obtain s' where "setupPowerShell s = appendConfiguration (profilePath s) [] s'"
    by auto
  with ok appendConfiguration_Inr [of "profilePath s" "[]" s' "()"] p
  show "files (snd (setupPowerShell s)) (POWERSHELL_PROFILE_5 (home s)) =
          Some (File (''# fnm (Fast Node Manager)\<newline>''
                @ ''fnm env --use-on-cd --corepack-enabled --shell powershell | Out-String | Invoke-Expression''
                @ ''\<newline>''))"
    by (simp add: newContent_def fnmInitLine_text)
next
  assume "list_all (\<lambda>d. files s d = Some Dir \<or> (files s d = None \<and> d \<notin> denied s))
               (tl (prefixes (join_dotdot (POWERSHELL_PROFILE_5 (home s)))))
             \<and> POWERSHELL_PROFILE_5 (home s) \<notin> denied s"
  with assms show "fst (setupPowerShell s) = Inr ()"
    by (intro setupPowerShell_returns_new) (simp_all add: list_all_iff)
qed

theorem new_profile_is_exactly_the_block_witness:
  "\<not> existsSync (machine (answers None True)) (POWERSHELL_PROFILE_5 sample_home)
   \<and> \<not> existsSync (machine (answers None True)) (POWERSHELL_PROFILE_6 sample_home)
   \<and> list_all (\<lambda>d. files (machine (answers None True)) d = Some Dir
          \<or> (files (machine (answers None True)) d = None \<and> d \<notin> denied (machine (answers None True))))
        (tl (prefixes (join_dotdot (POWERSHELL_PROFILE_5 sample_home))))
   \<and> POWERSHELL_PROFILE_5 sample_home \<notin> denied (machine (answers None True))
   \<and> fst (setupPowerShell (machine (answers None True))) = Inr ()
   \<and> files (snd (setupPowerShell (machine (answers None True)))) (POWERSHELL_PROFILE_5 sample_home) =
       Some (File (''# fnm (Fast Node Manager)\<newline>''
                @ ''fnm env --use-on-cd --corepack-enabled --shell powershell | Out-String | Invoke-Expression''
                @ ''\<newline>''))"
proof -
  let ?m = "machine (answers None True)"
  have hm: "home ?m = sample_home"
    by (simp add: machine_def)
  have h1: "\<not> existsSync ?m (POWERSHELL_PROFILE_5 (home ?m))"
    unfolding hm by code_simp
  have h2: "\<not> existsSync ?m (POWERSHELL_PROFILE_6 (home ?m))"
    unfolding hm by code_simp
  have h3: "list_all (\<lambda>d. files ?m d = Some Dir \<or> (files ?m d = None \<and> d \<notin> denied ?m))
        (tl (prefixes (join_dotdot (POWERSHELL_PROFILE_5 (home ?m)))))"
    unfolding hm by code_simp
  have h4: "POWERSHELL_PROFILE_5 (home ?m) \<notin> denied ?m"
    by (simp add: machine_def)
  from new_profile_is_exactly_the_block [OF h1 h2] h1 h2 h3 h4 hm show ?thesis
    by simp
qed

text \<open>
  A profile whose bytes are UTF-8 is text as it is. When it is not empty and does not
  hold the marker, a run that returns leaves the old bytes, an empty line and the two
  lines of the block, so the old bytes are a prefix of the new ones. The run does
  return when the profile's directory is there and the profile may be written.
\<close>

lemma utf8_profile_is_kept:
  assumes "files s (profilePath s) = Some (File c)"
    and "utf8_text c = c"
    and "c \<noteq> []"
    and "\<not> includes_str c ''fnm env''"
  shows "fst (setupPowerShell s) = Inr () \<Longrightarrow>
            files (snd (setupPowerShell s)) (profilePath s) =
              Some (File (c @ ''\<newline>\<newline># fnm (Fast Node Manager)\<newline>'' @ fnmInitLine @ ''\<newline>''))"
    and "files s (join_dotdot (profilePath s)) = Some Dir \<and> profilePath s \<notin> denied s \<Longrightarrow>
            fst (setupPowerShell s) = Inr ()"
proof -
  from assms(1,2,4)
  have sp: "setupPowerShell s = appendConfiguration (profilePath s) c (console_log SettingUpPowerShell s)"
    using setupPowerShell_append [of s c] by simp
  {
    assume ok: "fst (setupPowerShell s) = Inr ()"
    with sp appendConfiguration_Inr [of "profilePath s" c "console_log SettingUpPowerShell s" "()"]
    have "files (snd (setupPowerShell s)) (profilePath s) = Some (File (newContent c))"
      by simp
    with assms(3)
    show "files (snd (setupPowerShell s)) (profilePath s) =
            Some (File (c @ ''\<newline>\<newline># fnm (Fast Node Manager)\<newline>'' @ fnmInitLine @ ''\<newline>''))"
      by (simp add: newContent_def)
  }
  {
    assume "files s (join_dotdot (profilePath s)) = Some Dir \<and> profilePath s \<notin> denied s"
    with assms(1) have "fst (appendConfiguration (profilePath s) c (console_log SettingUpPowerShell s)) = Inr ()"
      by (intro appendConfiguration_returns) (simp_all add: join_dotdot_def)
    with sp show "fst (setupPowerShell s) = Inr ()"
      by simp
  }
qed

text \<open>
  Claim C8. The claim says that the content of every profile without the marker is kept
  unchanged, as a prefix of the new content. On the sample machine the PowerShell 6
  profile is a Windows-1252 file of two lines, \<^verbatim>\<open># caf\<close> with the byte E9 after it, and
  \<^verbatim>\<open>Set-Alias ll ls\<close>. The run returns and the file it leaves has the bytes EF BF BD where
  the byte E9 was: the old bytes are changed and are not a prefix of the new ones.
\<close>

theorem windows_1252_profile_is_changed:
  "files (machine_with_profile_6 (''# caf'' @ CHR 0xE9 # ''\<newline>Set-Alias ll ls\<newline>'') (answers None True))
       (profilePath (machine_with_profile_6 (''# caf'' @ CHR 0xE9 # ''\<newline>Set-Alias ll ls\<newline>'')
          (answers None True)))
     = Some (File (''# caf'' @ CHR 0xE9 # ''\<newline>Set-Alias ll ls\<newline>''))
   \<and> \<not> includes_str (''# caf'' @ CHR 0xE9 # ''\<newline>Set-Alias ll ls\<newline>'') ''fnm env''
   \<and> fst (setupPowerShell (machine_with_profile_6 (''# caf'' @ CHR 0xE9 # ''\<newline>Set-Alias ll ls\<newline>'')
          (answers None True))) = Inr ()
   \<and> files (snd (setupPowerShell (machine_with_profile_6
          (''# caf'' @ CHR 0xE9 # ''\<newline>Set-Alias ll ls\<newline>'') (answers None True))))
       (profilePath (machine_with_profile_6 (''# caf'' @ CHR 0xE9 # ''\<newline>Set-Alias ll ls\<newline>'')
          (answers None True)))
     = Some (File (''# caf'' @ [CHR 0xEF, CHR 0xBF, CHR 0xBD] @ ''\<newline>Set-Alias ll ls\<newline>''
          @ ''\<newline>\<newline># fnm (Fast Node Manager)\<newline>''
          @ ''fnm env --use-on-cd --corepack-enabled --shell powershell | Out-String | Invoke-Expression\<newline>''))
   \<and> \<not> prefix (''# caf'' @ CHR 0xE9 # ''\<newline>Set-Alias ll ls\<newline>'')
         (''# caf'' @ [CHR 0xEF, CHR 0xBF, CHR 0xBD] @ ''\<newline>Set-Alias ll ls\<newline>''
          @ ''\<newline>\<newline># fnm (Fast Node Manager)\<newline>''
          @ ''fnm env --use-on-cd --corepack-enabled --shell powershell | Out-String | Invoke-Expression\<newline>'')"
  by code_simp

text \<open>
  Claim C9. \<^verbatim>\<open>setupCmd\<close> writes the init script without looking at what is there. It
  returns whenever the home directory is there and the init script is no directory and
  may be written, and when it returns the file is the fixed template: the guard on
  \<^verbatim>\<open>FNM_AUTORUN_GUARD\<close> around the call of \<^verbatim>\<open>fnm env\<close>. So after a run of the script that
  ends with status 0, and after any number of further runs, whatever the external
  commands answer in them, the file is exactly the template, whatever it held before.
  The script ends with status 0 whenever \<^verbatim>\<open>fnm\<close> answers, the profile step returns, the
  home directory is there and the init script is no directory and may be written.
  A run in which \<^verbatim>\<open>setupCmd\<close> throws leaves every file as it was.
\<close>

theorem init_script_is_always_the_template:
  "(files s (home s @ [''fnm_init.cmd'']) \<noteq> Some Dir
      \<and> (home s = [] \<or> files s (home s) = Some Dir)
      \<and> home s @ [''fnm_init.cmd''] \<notin> denied s \<longrightarrow>
      fst (setupCmd s) = Inr ())
   \<and> (fst (setupCmd s) = Inr () \<longrightarrow>
      files (snd (setupCmd s)) (home s @ [''fnm_init.cmd'']) =
        Some (File
          (''@echo off\<newline>''
           @ '':: for /F will launch a new instance of cmd so we create a guard to prevent an infinite loop\<newline>''
           @ ''if not defined FNM_AUTORUN_GUARD (\<newline>''
           @ ''    set '' @ CHR 0x22 # ''FNM_AUTORUN_GUARD=AutorunGuard'' @ CHR 0x22 # ''\<newline>''
           @ ''    FOR /f '' @ CHR 0x22 # ''tokens=*'' @ CHR 0x22 # '' %%z IN ('' @ CHR 0x27
               # ''fnm env --use-on-cd --corepack-enabled --shell cmd'' @ CHR 0x27 # '') DO CALL %%z\<newline>''
           @ '')\<newline>'')))
   \<and> (fst (main s) = 0 \<longrightarrow>
      files (reruns later (snd (main s))) (home s @ [''fnm_init.cmd'']) =
        Some (File
          (''@echo off\<newline>''
           @ '':: for /F will launch a new instance of cmd so we create a guard to prevent an infinite loop\<newline>''
           @ ''if not defined FNM_AUTORUN_GUARD (\<newline>''
           @ ''    set '' @ CHR 0x22 # ''FNM_AUTORUN_GUARD=AutorunGuard'' @ CHR 0x22 # ''\<newline>''
           @ ''    FOR /f '' @ CHR 0x22 # ''tokens=*'' @ CHR 0x22 # '' %%z IN ('' @ CHR 0x27
               # ''fnm env --use-on-cd --corepack-enabled --shell cmd'' @ CHR 0x27 # '') DO CALL %%z\<newline>''
           @ '')\<newline>'')))
   \<and> (shell s ''fnm --version'' \<noteq> None
      \<and> fst (setupPowerShell s) = Inr ()
      \<and> files s (home s) = Some Dir
      \<and> files s (home s @ [''fnm_init.cmd'']) \<noteq> Some Dir
      \<and> home s @ [''fnm_init.cmd''] \<notin> denied s \<longrightarrow>
      fst (main s) = 0)
   \<and> (fst (setupCmd s) = Inl e \<longrightarrow> files (snd (setupCmd s)) = files s)"
proof (intro conjI impI)
  assume "files s (home s @ [''fnm_init.cmd'']) \<noteq> Some Dir
      \<and> (home s = [] \<or> files s (home s) = Some Dir)
      \<and> home s @ [''fnm_init.cmd''] \<notin> denied s"
  then show "fst (setupCmd s) = Inr ()"
    by (intro setupCmd_returns) (simp_all add: CMD_INIT_FILE_def join_def)
next
  assume "fst (setupCmd s) = Inr ()"
  then have "files (snd (setupCmd s)) (CMD_INIT_FILE (home s)) = Some (File cmdContent)"
    by (simp add: setupCmd_files)
  then show "files (snd (setupCmd s)) (home s @ [''fnm_init.cmd'']) =
        Some (File
          (''@echo off\<newline>''
           @ '':: for /F will launch a new instance of cmd so we create a guard to prevent an infinite loop\<newline>''
           @ ''if not defined FNM_AUTORUN_GUARD (\<newline>''
           @ ''    set '' @ CHR 0x22 # ''FNM_AUTORUN_GUARD=AutorunGuard'' @ CHR 0x22 # ''\<newline>''
           @ ''    FOR /f '' @ CHR 0x22 # ''tokens=*'' @ CHR 0x22 # '' %%z IN ('' @ CHR 0x27
               # ''fnm env --use-on-cd --corepack-enabled --shell cmd'' @ CHR 0x27 # '') DO CALL %%z\<newline>''
           @ '')\<newline>''))"
    unfolding cmdContent_text by (simp add: CMD_INIT_FILE_def join_def)
next
  assume ok: "fst (main s) = 0"
  from reruns_keep_init_file [of "snd (main s)" later] main_writes_init_file [OF ok]
  have "files (reruns later (snd (main s))) (CMD_INIT_FILE (home s)) = Some (File cmdContent)"
    by (simp add: main_home)
  then show "files (reruns later (snd (main s))) (home s @ [''fnm_init.cmd'']) =
        Some (File
          (''@echo off\<newline>''
           @ '':: for /F will launch a new instance of cmd so we create a guard to prevent an infinite loop\<newline>''
           @ ''if not defined FNM_AUTORUN_GUARD (\<newline>''
           @ ''    set '' @ CHR 0x22 # ''FNM_AUTORUN_GUARD=AutorunGuard'' @ CHR 0x22 # ''\<newline>''
           @ ''    FOR /f '' @ CHR 0x22 # ''tokens=*'' @ CHR 0x22 # '' %%z IN ('' @ CHR 0x27
               # ''fnm env --use-on-cd --corepack-enabled --shell cmd'' @ CHR 0x27 # '') DO CALL %%z\<newline>''
           @ '')\<newline>''))"
    unfolding cmdContent_text by (simp add: CMD_INIT_FILE_def join_def)
next
  assume "shell s ''fnm --version'' \<noteq> None
      \<and> fst (setupPowerShell s) = Inr ()
      \<and> files s (home s) = Some Dir
      \<and> files s (home s @ [''fnm_init.cmd'']) \<noteq> Some Dir
      \<and> home s @ [''fnm_init.cmd''] \<notin> denied s"
  then show "fst (main s) = 0"
    by (intro main_returns) (simp_all add: CMD_INIT_FILE_def join_def)
next
  assume "fst (setupCmd s) = Inl e"
  then show "files (snd (setupCmd s)) = files s"
    by (simp add: setupCmd_throws)
qed

text \<open>
  A machine whose init script holds something else; the script runs three times, and in
  the last two runs \<^verbatim>\<open>fnm\<close> is missing, then the registry is refused. On a machine with no
  home directory \<^verbatim>\<open>setupCmd\<close> throws.
\<close>

theorem init_script_is_always_the_template_witness:
  "files ((machine (answers None True))
         \<lparr>files := (files (machine (answers None True)))
            (sample_home @ [''fnm_init.cmd''] \<mapsto> File ''echo old'')\<rparr>)
       (sample_home @ [''fnm_init.cmd'']) = Some (File ''echo old'')
   \<and> files (machine (answers None True)) sample_home = Some Dir
   \<and> sample_home @ [''fnm_init.cmd''] \<notin> denied (machine (answers None True))
   \<and> shell (machine (answers None True)) ''fnm --version'' = Some ''1.38.1''
   \<and> fst (setupPowerShell ((machine (answers None True))
         \<lparr>files := (files (machine (answers None True)))
            (sample_home @ [''fnm_init.cmd''] \<mapsto> File ''echo old'')\<rparr>)) = Inr ()
   \<and> fst (setupCmd ((machine (answers None True))
         \<lparr>files := (files (machine (answers None True)))
            (sample_home @ [''fnm_init.cmd''] \<mapsto> File ''echo old'')\<rparr>)) = Inr ()
   \<and> fst (main ((machine (answers None True))
         \<lparr>files := (files (machine (answers None True)))
            (sample_home @ [''fnm_init.cmd''] \<mapsto> File ''echo old'')\<rparr>)) = 0
   \<and> files (snd (setupCmd ((machine (answers None True))
         \<lparr>files := (files (machine (answers None True)))
            (sample_home @ [''fnm_init.cmd''] \<mapsto> File ''echo old'')\<rparr>)))
        (sample_home @ [''fnm_init.cmd'']) =
        Some (File
          (''@echo off\<newline>''
           @ '':: for /F will launch a new instance of cmd so we create a guard to prevent an infinite loop\<newline>''
           @ ''if not defined FNM_AUTORUN_GUARD (\<newline>''
           @ ''    set '' @ CHR 0x22 # ''FNM_AUTORUN_GUARD=AutorunGuard'' @ CHR 0x22 # ''\<newline>''
           @ ''    FOR /f '' @ CHR 0x22 # ''tokens=*'' @ CHR 0x22 # '' %%z IN ('' @ CHR 0x27
               # ''fnm env --use-on-cd --corepack-enabled --shell cmd'' @ CHR 0x27 # '') DO CALL %%z\<newline>''
           @ '')\<newline>''))
   \<and> files (reruns [\<lambda>c. None, answers (Some []) False]
         (snd (main ((machine (answers None True))
           \<lparr>files := (files (machine (answers None True)))
              (sample_home @ [''fnm_init.cmd''] \<mapsto> File ''echo old'')\<rparr>))))
        (sample_home @ [''fnm_init.cmd'']) =
        Some (File
          (''@echo off\<newline>''
           @ '':: for /F will launch a new instance of cmd so we create a guard to prevent an infinite loop\<newline>''
           @ ''if not defined FNM_AUTORUN_GUARD (\<newline>''
           @ ''    set '' @ CHR 0x22 # ''FNM_AUTORUN_GUARD=AutorunGuard'' @ CHR 0x22 # ''\<newline>''
           @ ''    FOR /f '' @ CHR 0x22 # ''tokens=*'' @ CHR 0x22 # '' %%z IN ('' @ CHR 0x27
               # ''fnm env --use-on-cd --corepack-enabled --shell cmd'' @ CHR 0x27 # '') DO CALL %%z\<newline>''
           @ '')\<newline>''))
   \<and> fst (setupCmd ((machine (answers None True))\<lparr>files := Map.empty\<rparr>)) = Inl ENOENT
   \<and> files (snd (setupCmd ((machine (answers None True))\<lparr>files := Map.empty\<rparr>)))
       = files ((machine (answers None True))\<lparr>files := Map.empty\<rparr>)"
proof -
  let ?m = "(machine (answers None True))
         \<lparr>files := (files (machine (answers None True)))
            (sample_home @ [''fnm_init.cmd''] \<mapsto> File ''echo old'')\<rparr>"
  let ?e = "(machine (answers None True))\<lparr>files := Map.empty\<rparr>"
  have h: "home ?m = sample_home" "denied ?m = denied (machine (answers None True))"
    "files ?m sample_home = files (machine (answers None True)) sample_home"
    by (simp_all add: machine_def sample_home_def)
  have h0: "files ?m (sample_home @ [''fnm_init.cmd'']) = Some (File ''echo old'')"
    by simp
  have h1: "files (machine (answers None True)) sample_home = Some Dir"
    by code_simp
  have h2: "sample_home @ [''fnm_init.cmd''] \<notin> denied (machine (answers None True))"
    by (simp add: machine_def)
  have h3: "shell (machine (answers None True)) ''fnm --version'' = Some ''1.38.1''"
    "shell ?m = shell (machine (answers None True))"
    by (simp_all add: machine_def answers_def)
  have h5: "fst (setupPowerShell ?m) = Inr ()"
    by code_simp
  have h4: "fst (setupCmd ?e) = Inl ENOENT"
    by code_simp
  from init_script_is_always_the_template [of ?m "[\<lambda>c. None, answers (Some []) False]"]
       init_script_is_always_the_template [of ?e _ ENOENT] h h0 h1 h2 h3 h4 h5
  show ?thesis
    by simp
qed

text \<open>
  Claim C10. When the query succeeds, its trimmed output does not contain the
  init-script path and the pattern does not match it, the existing value is the empty
  string and the command run is
  \<^verbatim>\<open>reg add "HKCU\Software\Microsoft\Command Processor" /v AutoRun /t REG_SZ /d "p" /f\<close>
  with the init-script path alone for \<open>p\<close>. Nothing on the console tells of a value that
  was there: when \<^verbatim>\<open>reg add\<close> succeeds, the report is the same as on a machine with an
  empty value.
\<close>

theorem unmatched_output_discards_value:
  assumes "fst (setupCmd s) = Inr ()"
    and "shell s regQueryCommand = Some output"
    and "\<not> includes_str (trim output) (path_string (CMD_INIT_FILE (home s)))"
    and "autorun_re_match (trim output) = None"
  shows "existingValue (trim output) = []
         \<and> spawned (snd (setupCmd s)) =
             spawned s @
               [''reg query '' @ CHR 0x22 # ''HKCU'' @ CHR 0x5C # ''Software'' @ CHR 0x5C # ''Microsoft''
                  @ CHR 0x5C # ''Command Processor'' @ CHR 0x22 # '' /v AutoRun 2>nul'',
                ''reg add '' @ CHR 0x22 # ''HKCU'' @ CHR 0x5C # ''Software'' @ CHR 0x5C # ''Microsoft''
                  @ CHR 0x5C # ''Command Processor'' @ CHR 0x22 # '' /v AutoRun /t REG_SZ /d '' @ CHR 0x22
                  # path_string (home s @ [''fnm_init.cmd'']) @ CHR 0x22 # '' /f'']
         \<and> (shell s (''reg add '' @ CHR 0x22 # ''HKCU'' @ CHR 0x5C # ''Software'' @ CHR 0x5C # ''Microsoft''
                  @ CHR 0x5C # ''Command Processor'' @ CHR 0x22 # '' /v AutoRun /t REG_SZ /d '' @ CHR 0x22
                  # path_string (home s @ [''fnm_init.cmd'']) @ CHR 0x22 # '' /f'') \<noteq> None \<longrightarrow>
              console (snd (setupCmd s)) = console s @
                [SettingUpCmd, CreatedInitScript (path_string (home s @ [''fnm_init.cmd''])),
                 AutoRunConfigured])"
proof -
  from assms(4) have e: "existingValue (trim output) = []"
    by (simp add: existingValue_def)
  then have n: "newAutoRun (home s) (trim output) = path_string (CMD_INIT_FILE (home s))"
    by (simp add: newAutoRun_def)
  from setupCmd_add [OF assms(1-3)] e n show ?thesis
    by (simp add: regAddCommand_text regQueryCommand_text CMD_INIT_FILE_def join_def)
qed

text \<open>The sample machine with an AutoRun value of type \<^verbatim>\<open>REG_EXPAND_SZ\<close>.\<close>

theorem unmatched_output_discards_value_witness:
  "fst (setupCmd (machine (answers (Some (reg_output ''REG_EXPAND_SZ'' ''%TOOLS%/init.cmd'')) True))) = Inr ()
   \<and> \<not> includes_str (trim (reg_output ''REG_EXPAND_SZ'' ''%TOOLS%/init.cmd''))
          (path_string (CMD_INIT_FILE sample_home))
   \<and> autorun_re_match (trim (reg_output ''REG_EXPAND_SZ'' ''%TOOLS%/init.cmd'')) = None
   \<and> existingValue (trim (reg_output ''REG_EXPAND_SZ'' ''%TOOLS%/init.cmd'')) = []
   \<and> spawned (snd (setupCmd
         (machine (answers (Some (reg_output ''REG_EXPAND_SZ'' ''%TOOLS%/init.cmd'')) True)))) =
       [''reg query '' @ CHR 0x22 # ''HKCU'' @ CHR 0x5C # ''Software'' @ CHR 0x5C # ''Microsoft''
          @ CHR 0x5C # ''Command Processor'' @ CHR 0x22 # '' /v AutoRun 2>nul'',
        ''reg add '' @ CHR 0x22 # ''HKCU'' @ CHR 0x5C # ''Software'' @ CHR 0x5C # ''Microsoft''
          @ CHR 0x5C # ''Command Processor'' @ CHR 0x22 # '' /v AutoRun /t REG_SZ /d '' @ CHR 0x22
          # ''C:'' @ CHR 0x5C # ''Users'' @ CHR 0x5C # ''me'' @ CHR 0x5C # ''fnm_init.cmd''
          @ CHR 0x22 # '' /f'']
   \<and> console (snd (setupCmd
         (machine (answers (Some (reg_output ''REG_EXPAND_SZ'' ''%TOOLS%/init.cmd'')) True)))) =
       [SettingUpCmd,
        CreatedInitScript (''C:'' @ CHR 0x5C # ''Users'' @ CHR 0x5C # ''me'' @ CHR 0x5C # ''fnm_init.cmd''),
        AutoRunConfigured]"
proof -
  let ?q = "reg_output ''REG_EXPAND_SZ'' ''%TOOLS%/init.cmd''"
  let ?m = "machine (answers (Some ?q) True)"
  have h1: "fst (setupCmd ?m) = Inr ()"
    by code_simp
  have h2: "shell ?m regQueryCommand = Some ?q"
    by code_simp
  have h: "home ?m = sample_home" "spawned ?m = []" "console ?m = []"
    by (simp_all add: machine_def)
  have p: "path_string (sample_home @ [''fnm_init.cmd'']) =
      ''C:'' @ CHR 0x5C # ''Users'' @ CHR 0x5C # ''me'' @ CHR 0x5C # ''fnm_init.cmd''"
    by code_simp
  have h3: "\<not> includes_str (trim ?q) (path_string (CMD_INIT_FILE (home ?m)))"
    unfolding h by code_simp
  have h4: "autorun_re_match (trim ?q) = None"
    by code_simp
  have h5: "shell ?m (''reg add '' @ CHR 0x22 # ''HKCU'' @ CHR 0x5C # ''Software'' @ CHR 0x5C # ''Microsoft''
                  @ CHR 0x5C # ''Command Processor'' @ CHR 0x22 # '' /v AutoRun /t REG_SZ /d '' @ CHR 0x22
                  # path_string (home ?m @ [''fnm_init.cmd'']) @ CHR 0x22 # '' /f'') \<noteq> None"
    unfolding h by code_simp
  from unmatched_output_discards_value [OF h1 h2 h3 h4] h1 h3 h4 h5 h p show ?thesis
    by simp
qed

end
